theory Spec2Isabelle
  imports Complex_Main
begin

section \<open>Data model\<close>

text \<open>
  The call session of one endpoint is the class \<open>WebRTCService\<close> of
  \<open>client/src/lib/firebase.ts\<close>. Its methods and the callbacks it installs are modelled
  as functions from the service state to the new state and the list of calls made to the outside
  (Firebase, the media engine, the handlers of the page), in the order they are made. A
  method or callback is taken as a whole, except the callback of the mailbox listener, whose
  runs are suspended at each \<open>await\<close> of their loop and overlap. Console output is left
  out.
\<close>

text \<open>\<open>webRTCSignalSchema\<close> of shared/schema.ts. The payload is \<open>z.any()\<close>: an opaque
  SDP or candidate blob, or null. Field names carry the prefix \<open>sig_\<close> where the
  service has a field of the same name.\<close>

datatype signal_type = Offer | Answer | IceCandidate | EndCallSignal | RejectCallSignal

datatype payload = PNull | PData string

record webrtc_signal =
  sig_callId :: string
  fromUserId :: string
  toUserId :: string
  sig_type :: signal_type
  sig_payload :: payload
  sig_timestamp :: int

text \<open>The record under \<open>call-states/callId\<close>, as far as the service writes and reads it.
  In an update, an absent \<open>startedAt\<close> or \<open>endedAt\<close> is \<open>None\<close>.\<close>

datatype call_status = Ringing | Active | Ended | Missed | Rejected

record call_state =
  status :: call_status
  cs_startedAt :: "int option"
  cs_endedAt :: "int option"

datatype kind = Audio | Video

datatype media_track = Track kind string

text \<open>A track of the stream handed to the recorder: the single track of the Web Audio
  destination node, fed by the sources made from the local and the remote stream, or a track
  taken over as it is.\<close>

datatype rec_track = MixedAudio "media_track list" "media_track list" | Plain media_track

datatype ice_state = IceNew | Checking | Connected | Completed | Failed | Disconnected | Closed

datatype recorder_state = Inactive | Recording | Paused

text \<open>The part of \<open>RTCPeerConnection\<close> that the service reads.\<close>

record peer_connection =
  remoteDescription :: "payload option"
  localDescription :: "payload option"
  iceConnectionState :: ice_state

datatype notification =
    OnRemoteStream "media_track list"
  | OnCallEnded
  | OnCallAccepted
  | OnError
  | OnIceConnectionStateChange ice_state
  | OnCallStateChange call_state

text \<open>The calls a method makes to the outside. \<open>SetSignal c u k sg\<close> is
  \<open>set(ref(db, webrtc-signals/c/u/k), sg)\<close>, \<open>RemoveSignal c u k\<close> the \<open>remove\<close> of that
  path, \<open>UpdateCallState c upd\<close> is \<open>update(ref(db, call-states/c), upd)\<close>,
  \<open>ScheduleRemoveCallState c ms\<close> the \<open>setTimeout\<close> that removes \<open>call-states/c\<close>.\<close>

datatype effect =
    SetSignal string string int webrtc_signal
  | RemoveSignal string string int
  | UpdateCallState string call_state
  | ScheduleRemoveCallState string nat
  | GetUserMedia bool bool
  | SubscribeCallState string
  | ListenSignals string string
  | AddTrack media_track
  | CreateOffer
  | CreateAnswer
  | SetLocalDescription payload
  | SetRemoteDescription payload
  | AddIceCandidate payload
  | NewAudioContext
  | CreateMediaStreamSource "media_track list"
  | NewMediaRecorder "rec_track list"
  | RecorderStart nat
  | RecorderStop
  | TrackStop media_track
  | PeerClose
  | AudioContextClose
  | SignalUnsubscribe
  | CallStateUnsubscribe
  | Notify notification

text \<open>What the outside decides: which calls raise an error, and what the media engine
  answers.\<close>

record env =
  throws :: "effect \<Rightarrow> bool"
  offerSdp :: string
  answerSdp :: string
  userMedia :: "bool \<Rightarrow> bool \<Rightarrow> media_track list"

record service =
  peerConnection :: "peer_connection option"
  localStream :: "media_track list option"
  remoteStream :: "media_track list option"
  mixedStream :: "rec_track list option"
  audioContext :: bool
  callId :: string
  userId :: string
  otherUserId :: string
  signalUnsubscribe :: bool
  callStateUnsubscribe :: bool
  mediaRecorder :: "recorder_state option"
  recordedChunks :: "nat list"
  isCallEnded :: bool
  isCallActive :: bool

section \<open>Ending a call\<close>

text \<open>\<open>cleanup()\<close>: releases what the service holds and clears the recorded chunks. The
  recorder object itself is kept.\<close>

definition cleanup :: "service \<Rightarrow> service \<times> effect list" where
  "cleanup s =
     (s\<lparr>signalUnsubscribe := False, callStateUnsubscribe := False, localStream := None,
        peerConnection := None, audioContext := False, remoteStream := None,
        mixedStream := None, recordedChunks := []\<rparr>,
      (if signalUnsubscribe s then [SignalUnsubscribe] else []) @
      (if callStateUnsubscribe s then [CallStateUnsubscribe] else []) @
      (case localStream s of Some ts \<Rightarrow> map TrackStop ts | None \<Rightarrow> []) @
      (case peerConnection s of Some p \<Rightarrow> [PeerClose] | None \<Rightarrow> []) @
      (if audioContext s then [AudioContextClose] else []))"

text \<open>\<open>cleanupRemoteResources()\<close>. Each of the three steps has its own try/catch, so an
  error in one skips none of the others. The arguments are the readings of \<open>Date.now()\<close>:
  the signal's timestamp, the mailbox key taken in \<open>sendSignal\<close>, and \<open>endedAt\<close>.\<close>

definition endCallSignal :: "service \<Rightarrow> int \<Rightarrow> webrtc_signal" where
  "endCallSignal s t =
     \<lparr>sig_callId = callId s, fromUserId = userId s, toUserId = otherUserId s,
      sig_type = EndCallSignal, sig_payload = PNull, sig_timestamp = t\<rparr>"

definition cleanupRemoteResources :: "int \<Rightarrow> int \<Rightarrow> int \<Rightarrow> service \<Rightarrow> effect list" where
  "cleanupRemoteResources t k t2 s =
     [SetSignal (callId s) (otherUserId s) k (endCallSignal s t),
      UpdateCallState (callId s) \<lparr>status = Ended, cs_startedAt = None, cs_endedAt = Some t2\<rparr>,
      ScheduleRemoveCallState (callId s) 3000]"

definition recorderActive :: "service \<Rightarrow> bool" where
  "recorderActive s = (case mediaRecorder s of Some st \<Rightarrow> st \<noteq> Inactive | None \<Rightarrow> False)"

definition endCall :: "int \<Rightarrow> int \<Rightarrow> int \<Rightarrow> service \<Rightarrow> service \<times> effect list" where
  "endCall t k t2 s =
     (if isCallEnded s then (s, [])
      else
        let s1 = s\<lparr>isCallEnded := True\<rparr>;
            s2 = (if recorderActive s1 then s1\<lparr>mediaRecorder := Some Inactive\<rparr> else s1);
            e1 = (if recorderActive s1 then [RecorderStop] else []);
            c = cleanup s2
        in (fst c, e1 @ snd c @ cleanupRemoteResources t k t2 (fst c)))"

text \<open>\<open>endCall()\<close> invoked once for each triple of clock readings, one call after the other.
  \<open>endCall\<close> tests and sets its latch before its first \<open>await\<close>, so calls from several
  triggers run in some such order.\<close>

fun endCalls :: "(int \<times> int \<times> int) list \<Rightarrow> service \<Rightarrow> service \<times> effect list" where
  "endCalls [] s = (s, [])"
| "endCalls ((t, k, t2) # cs) s =
     (let r = endCall t k t2 s; r' = endCalls cs (fst r) in (fst r', snd r @ snd r'))"

definition isEndCallSignal :: "effect \<Rightarrow> bool" where
  "isEndCallSignal e = (case e of SetSignal c u k sg \<Rightarrow> sig_type sg = EndCallSignal | _ \<Rightarrow> False)"

definition isEndedWrite :: "effect \<Rightarrow> bool" where
  "isEndedWrite e = (case e of UpdateCallState c upd \<Rightarrow> status upd = Ended | _ \<Rightarrow> False)"

definition isLocalRelease :: "effect \<Rightarrow> bool" where
  "isLocalRelease e =
     (case e of RecorderStop \<Rightarrow> True | TrackStop tr \<Rightarrow> True | PeerClose \<Rightarrow> True
      | AudioContextClose \<Rightarrow> True | SignalUnsubscribe \<Rightarrow> True
      | CallStateUnsubscribe \<Rightarrow> True | _ \<Rightarrow> False)"

text \<open>The releases one teardown of \<open>s\<close> consists of: each held resource once.\<close>

definition localReleases :: "service \<Rightarrow> effect list" where
  "localReleases s =
     (if recorderActive s then [RecorderStop] else []) @
     (if signalUnsubscribe s then [SignalUnsubscribe] else []) @
     (if callStateUnsubscribe s then [CallStateUnsubscribe] else []) @
     (case localStream s of Some ts \<Rightarrow> map TrackStop ts | None \<Rightarrow> []) @
     (case peerConnection s of Some p \<Rightarrow> [PeerClose] | None \<Rightarrow> []) @
     (if audioContext s then [AudioContextClose] else [])"

definition exampleSession :: service where
  "exampleSession =
     \<lparr>peerConnection = Some \<lparr>remoteDescription = Some (PData ''v=0 offer''),
                              localDescription = Some (PData ''v=0 answer''),
                              iceConnectionState = Connected\<rparr>,
      localStream = Some [Track Audio ''mic'', Track Video ''camera''],
      remoteStream = Some [Track Audio ''peer-mic'', Track Video ''peer-camera''],
      mixedStream = Some [MixedAudio [Track Audio ''mic'', Track Video ''camera'']
                            [Track Audio ''peer-mic'', Track Video ''peer-camera''],
                          Plain (Track Video ''camera'')],
      audioContext = True, callId = ''call-1'', userId = ''bob'', otherUserId = ''alice'',
      signalUnsubscribe = True, callStateUnsubscribe = True,
      mediaRecorder = Some Recording, recordedChunks = [512, 498],
      isCallEnded = False, isCallActive = True\<rparr>"

section \<open>Signalling\<close>

text \<open>\<open>sendSignal(signal)\<close> writes the signal under the recipient's mailbox of this call,
  at the key \<open>Date.now()\<close> (the argument \<open>k\<close>).\<close>

definition sendSignal :: "int \<Rightarrow> service \<Rightarrow> webrtc_signal \<Rightarrow> effect" where
  "sendSignal k s sg = SetSignal (callId s) (toUserId sg) k sg"

definition mkSignal :: "service \<Rightarrow> signal_type \<Rightarrow> payload \<Rightarrow> int \<Rightarrow> webrtc_signal" where
  "mkSignal s ty pl t =
     \<lparr>sig_callId = callId s, fromUserId = userId s, toUserId = otherUserId s,
      sig_type = ty, sig_payload = pl, sig_timestamp = t\<rparr>"

text \<open>The \<open>offer\<close> case of \<open>handleSignal\<close>. An error raised by any call ends the case at
  that call; the catch of \<open>handleSignal\<close> only logs it. The checks of \<open>signalingState\<close>
  only log a warning.\<close>

definition handleOffer ::
  "env \<Rightarrow> int \<Rightarrow> int \<Rightarrow> service \<Rightarrow> peer_connection \<Rightarrow> webrtc_signal \<Rightarrow> service \<times> effect list" where
  "handleOffer env t k s p sg =
     (let e1 = SetRemoteDescription (sig_payload sg);
          p1 = p\<lparr>remoteDescription := Some (sig_payload sg)\<rparr>;
          ans = PData (answerSdp env);
          e3 = SetLocalDescription ans;
          p2 = p1\<lparr>localDescription := Some ans\<rparr>
      in if throws env e1 then (s, [e1])
         else if throws env CreateAnswer then (s\<lparr>peerConnection := Some p1\<rparr>, [e1, CreateAnswer])
         else if throws env e3 then (s\<lparr>peerConnection := Some p1\<rparr>, [e1, CreateAnswer, e3])
         else (s\<lparr>peerConnection := Some p2\<rparr>,
               [e1, CreateAnswer, e3, sendSignal k s (mkSignal s Answer ans t)]))"

definition handleAnswer ::
  "env \<Rightarrow> service \<Rightarrow> peer_connection \<Rightarrow> webrtc_signal \<Rightarrow> service \<times> effect list" where
  "handleAnswer env s p sg =
     (let e1 = SetRemoteDescription (sig_payload sg)
      in if throws env e1 then (s, [e1])
         else (s\<lparr>peerConnection := Some (p\<lparr>remoteDescription := Some (sig_payload sg)\<rparr>)\<rparr>, [e1]))"

text \<open>\<open>handleSignal(signal)\<close>; \<open>t\<close> and \<open>k\<close> are the readings of \<open>Date.now()\<close> for the
  timestamp and the mailbox key of an answer.\<close>

definition handleSignal ::
  "env \<Rightarrow> int \<Rightarrow> int \<Rightarrow> service \<Rightarrow> webrtc_signal \<Rightarrow> service \<times> effect list" where
  "handleSignal env t k s sg =
     (case peerConnection s of
        None \<Rightarrow> (s, [])
      | Some p \<Rightarrow>
          (case sig_type sg of
             Offer \<Rightarrow> handleOffer env t k s p sg
           | Answer \<Rightarrow> handleAnswer env s p sg
           | IceCandidate \<Rightarrow>
               (if remoteDescription p = None then (s, [])
                else (s, [AddIceCandidate (sig_payload sg)]))
           | EndCallSignal \<Rightarrow> (if \<not> isCallEnded s then s\<lparr>isCallEnded := True\<rparr> else s, [])
           | RejectCallSignal \<Rightarrow> (if \<not> isCallEnded s then s\<lparr>isCallEnded := True\<rparr> else s, [])))"

section \<open>The realtime database\<close>

text \<open>The two locations the service uses: the mailboxes \<open>webrtc-signals/callId/userId\<close>,
  each a list of children in key order (the order in which \<open>snapshot.forEach\<close> visits them),
  and the records \<open>call-states/callId\<close>. \<open>set\<close> at a child's path replaces the child if it
  exists and adds it otherwise; \<open>update\<close> merges the given fields into the record.\<close>

record db =
  signals :: "string \<times> string \<Rightarrow> (int \<times> webrtc_signal) list"
  callStates :: "string \<Rightarrow> call_state option"

fun setChild :: "int \<Rightarrow> 'a \<Rightarrow> (int \<times> 'a) list \<Rightarrow> (int \<times> 'a) list" where
  "setChild k v [] = [(k, v)]"
| "setChild k v ((k', v') # rest) =
     (if k < k' then (k, v) # (k', v') # rest
      else if k = k' then (k, v) # rest
      else (k', v') # setChild k v rest)"

definition removeChild :: "int \<Rightarrow> (int \<times> 'a) list \<Rightarrow> (int \<times> 'a) list" where
  "removeChild k cs = filter (\<lambda>c. fst c \<noteq> k) cs"

definition mergeCallState :: "call_state option \<Rightarrow> call_state \<Rightarrow> call_state" where
  "mergeCallState old upd =
     (case old of
        None \<Rightarrow> upd
      | Some c \<Rightarrow>
          \<lparr>status = status upd,
           cs_startedAt = (case cs_startedAt upd of Some x \<Rightarrow> Some x | None \<Rightarrow> cs_startedAt c),
           cs_endedAt = (case cs_endedAt upd of Some x \<Rightarrow> Some x | None \<Rightarrow> cs_endedAt c)\<rparr>)"

definition dbApply :: "effect \<Rightarrow> db \<Rightarrow> db" where
  "dbApply e d =
     (case e of
        SetSignal c u k sg \<Rightarrow> d\<lparr>signals := (signals d)((c, u) := setChild k sg (signals d (c, u)))\<rparr>
      | RemoveSignal c u k \<Rightarrow> d\<lparr>signals := (signals d)((c, u) := removeChild k (signals d (c, u)))\<rparr>
      | UpdateCallState c upd \<Rightarrow>
          d\<lparr>callStates := (callStates d)(c := Some (mergeCallState (callStates d c) upd))\<rparr>
      | _ \<Rightarrow> d)"

text \<open>The database after a list of calls: a call that raises an error writes nothing.\<close>

definition dbRun :: "env \<Rightarrow> effect list \<Rightarrow> db \<Rightarrow> db" where
  "dbRun env es d = fold (\<lambda>e d'. if throws env e then d' else dbApply e d') es d"

definition noFailure :: env where
  "noFailure = \<lparr>throws = (\<lambda>e. False), offerSdp = ''v=0 offer'', answerSdp = ''v=0 answer'',
                userMedia = (\<lambda>a v. (if a then [Track Audio ''mic''] else []) @
                                   (if v then [Track Video ''camera''] else []))\<rparr>"


section \<open>Listening to the mailbox\<close>

text \<open>
  \<open>listenForSignals()\<close> registers an asynchronous callback with \<open>onValue\<close> on the
  service's own mailbox. The database calls it with the current children when the listener is
  registered and again on every change to the mailbox, also a change the service makes itself.
  Each call is a run of its own: it collects the signals of other users from its snapshot,
  once, and then, for each of them in turn, awaits \<open>handleSignal\<close> and awaits the
  \<open>remove\<close> of the child. At each \<open>await\<close> the run is suspended and other runs and
  events go on. A run is recorded by what is left of its collected array, the head being the
  signal in progress, and by which of the two awaits it is suspended at. \<open>handleSignal\<close> is
  taken as a whole at the moment it is called; the answer it may send goes to the peer's
  mailbox and fires no listener here.
\<close>

datatype awaiting = AwaitHandle | AwaitRemove

record listener_run =
  collected :: "(int \<times> webrtc_signal) list"
  awaiting :: awaiting

record listening =
  owner :: service
  store :: db
  runs :: "listener_run list"

definition fromOther :: "service \<Rightarrow> int \<times> webrtc_signal \<Rightarrow> bool" where
  "fromOther s c = (fromUserId (snd c) \<noteq> userId s)"

definition mailboxOf :: "listening \<Rightarrow> (int \<times> webrtc_signal) list" where
  "mailboxOf L = signals (store L) (callId (owner L), userId (owner L))"

text \<open>A run calls \<open>handleSignal\<close> on a child; \<open>clock key\<close> gives the two clock readings
  taken while the child \<open>key\<close> is handled.\<close>

definition callHandleSignal ::
  "env \<Rightarrow> (int \<Rightarrow> int \<times> int) \<Rightarrow> listening \<Rightarrow> int \<times> webrtc_signal \<Rightarrow> listening \<times> effect list" where
  "callHandleSignal env clock L c =
     (let h = handleSignal env (fst (clock (fst c))) (snd (clock (fst c))) (owner L) (snd c)
      in (L\<lparr>owner := fst h, store := dbRun env (snd h) (store L)\<rparr>, snd h))"

text \<open>The database calls the callback with the current mailbox: a new run starts, unless the
  listener has been cancelled, and goes as far as its first \<open>await\<close>. A snapshot without
  children, or without a signal of another user, ends the run at once.\<close>

definition onValue ::
  "env \<Rightarrow> (int \<Rightarrow> int \<times> int) \<Rightarrow> listening \<Rightarrow> listening \<times> effect list" where
  "onValue env clock L =
     (if \<not> signalUnsubscribe (owner L) then (L, [])
      else
        (case filter (fromOther (owner L)) (mailboxOf L) of
           [] \<Rightarrow> (L, [])
         | c # rest \<Rightarrow>
             (let a = callHandleSignal env clock L c
              in ((fst a)\<lparr>runs := runs (fst a) @ [\<lparr>collected = c # rest, awaiting = AwaitHandle\<rparr>]\<rparr>,
                  snd a))))"

text \<open>Run \<open>i\<close> goes on from the await it is suspended at. After \<open>handleSignal\<close> it calls
  \<open>remove\<close> on the child just handled, and the change of the mailbox makes the database
  call the callback; an error of \<open>remove\<close> is not caught and ends the run. After \<open>remove\<close>
  it takes the next signal of its array and calls \<open>handleSignal\<close> on it, or ends.\<close>

definition resume ::
  "env \<Rightarrow> (int \<Rightarrow> int \<times> int) \<Rightarrow> nat \<Rightarrow> listening \<Rightarrow> listening \<times> effect list" where
  "resume env clock i L =
     (if length (runs L) \<le> i then (L, [])
      else
        (case collected (runs L ! i) of
           [] \<Rightarrow> (L, [])
         | c # rest \<Rightarrow>
             (case awaiting (runs L ! i) of
                AwaitHandle \<Rightarrow>
                  (let rm = RemoveSignal (callId (owner L)) (userId (owner L)) (fst c);
                       L1 = L\<lparr>store := dbApply rm (store L),
                              runs := (runs L)[i := \<lparr>collected = c # rest, awaiting = AwaitRemove\<rparr>]\<rparr>;
                       f = (if mailboxOf L1 \<noteq> mailboxOf L then onValue env clock L1 else (L1, []))
                   in if throws env rm
                      then (L\<lparr>runs := (runs L)[i := \<lparr>collected = [], awaiting = AwaitRemove\<rparr>]\<rparr>, [rm])
                      else (fst f, rm # snd f))
              | AwaitRemove \<Rightarrow>
                  (case rest of
                     [] \<Rightarrow> (L\<lparr>runs := (runs L)[i := \<lparr>collected = [], awaiting = AwaitRemove\<rparr>]\<rparr>, [])
                   | c' # rest' \<Rightarrow>
                       (let a = callHandleSignal env clock L c'
                        in ((fst a)\<lparr>runs := (runs (fst a))
                                      [i := \<lparr>collected = c' # rest', awaiting = AwaitHandle\<rparr>]\<rparr>,
                            snd a))))))"

text \<open>The peer writes a signal into the mailbox, at the key \<open>key\<close>.\<close>

definition arrive ::
  "env \<Rightarrow> (int \<Rightarrow> int \<times> int) \<Rightarrow> int \<Rightarrow> webrtc_signal \<Rightarrow> listening \<Rightarrow> listening \<times> effect list" where
  "arrive env clock key sg L =
     (let L1 = L\<lparr>store := dbApply (SetSignal (callId (owner L)) (userId (owner L)) key sg) (store L)\<rparr>
      in if mailboxOf L1 \<noteq> mailboxOf L then onValue env clock L1 else (L1, []))"

datatype listener_event = Arrives int webrtc_signal | Resumes nat

fun listenerRun ::
  "env \<Rightarrow> (int \<Rightarrow> int \<times> int) \<Rightarrow> listening \<Rightarrow> listener_event list \<Rightarrow> listening \<times> effect list" where
  "listenerRun env clock L [] = (L, [])"
| "listenerRun env clock L (ev # evs) =
     (let a = (case ev of Arrives key sg \<Rightarrow> arrive env clock key sg L
                        | Resumes i \<Rightarrow> resume env clock i L);
          b = listenerRun env clock (fst a) evs
      in (fst b, snd a @ snd b))"

text \<open>\<open>listenForSignals()\<close> on the service \<open>s\<close> with the database \<open>d\<close>, followed by
  the given arrivals and resumptions: the final state and all calls made.\<close>

definition listenForSignals ::
  "env \<Rightarrow> (int \<Rightarrow> int \<times> int) \<Rightarrow> service \<Rightarrow> db \<Rightarrow> listener_event list \<Rightarrow> listening \<times> effect list" where
  "listenForSignals env clock s d evs =
     (let a = onValue env clock \<lparr>owner = s\<lparr>signalUnsubscribe := True\<rparr>, store = d, runs = []\<rparr>;
          b = listenerRun env clock (fst a) evs
      in (fst b, snd a @ snd b))"

section \<open>Negotiation and connection state\<close>

text \<open>\<open>setupPeerConnection()\<close>: a new connection, an empty remote stream, and the local
  tracks added to the connection.\<close>

definition newPeerConnection :: peer_connection where
  "newPeerConnection =
     \<lparr>remoteDescription = None, localDescription = None, iceConnectionState = IceNew\<rparr>"

definition setupPeerConnection :: "service \<Rightarrow> service \<times> effect list" where
  "setupPeerConnection s =
     (s\<lparr>peerConnection := Some newPeerConnection, remoteStream := Some []\<rparr>,
      (case localStream s of Some ts \<Rightarrow> map AddTrack ts | None \<Rightarrow> []))"

text \<open>\<open>createOffer()\<close>. It has no catch of its own: the flag says whether an error left
  it.\<close>

definition createOffer :: "env \<Rightarrow> int \<Rightarrow> int \<Rightarrow> service \<Rightarrow> (service \<times> effect list) \<times> bool" where
  "createOffer env t k s =
     (case peerConnection s of
        None \<Rightarrow> ((s, []), False)
      | Some p \<Rightarrow>
          (let off = PData (offerSdp env);
               e2 = SetLocalDescription off;
               e3 = sendSignal k s (mkSignal s Offer off t)
           in if throws env CreateOffer then ((s, [CreateOffer]), True)
              else if throws env e2 then ((s, [CreateOffer, e2]), True)
              else ((s\<lparr>peerConnection := Some (p\<lparr>localDescription := Some off\<rparr>)\<rparr>,
                     [CreateOffer, e2, e3]), throws env e3)))"

text \<open>\<open>initializeCall(callId, otherUserId, config, isInitiator)\<close>: the fields are set and
  both latches cleared; then, inside one try, the local media are acquired (\<open>userMedia env\<close>
  is what the browser grants), the connection is set up, the call state is subscribed to, the
  initiator creates the offer, and the mailbox is listened to. An error at any of these ends
  the method there, after \<open>onError\<close>.\<close>

definition initializeCall ::
  "env \<Rightarrow> int \<Rightarrow> int \<Rightarrow> service \<Rightarrow> string \<Rightarrow> string \<Rightarrow> bool \<times> bool \<Rightarrow> bool \<Rightarrow> service \<times> effect list" where
  "initializeCall env t k s cid other config isInitiator =
     (let s0 = s\<lparr>callId := cid, otherUserId := other, isCallEnded := False, isCallActive := False\<rparr>;
          g = GetUserMedia (fst config) (snd config);
          s1 = s0\<lparr>localStream := Some (userMedia env (fst config) (snd config))\<rparr>;
          sp = setupPeerConnection s1;
          sub = SubscribeCallState cid;
          s3 = (fst sp)\<lparr>callStateUnsubscribe := True\<rparr>;
          co = (if isInitiator then createOffer env t k s3 else ((s3, []), False));
          s4 = fst (fst co);
          ls = ListenSignals cid (userId s);
          e3 = g # snd sp @ [sub] @ snd (fst co)
      in if throws env g then (s0, [g, Notify OnError])
         else if throws env sub then (fst sp, g # snd sp @ [sub, Notify OnError])
         else if snd co then (s4, e3 @ [Notify OnError])
         else if throws env ls then (s4, e3 @ [ls, Notify OnError])
         else (s4\<lparr>signalUnsubscribe := True\<rparr>, e3 @ [ls]))"

text \<open>\<open>acceptCall()\<close>.\<close>

definition acceptCall :: "service \<Rightarrow> service \<times> effect list" where
  "acceptCall s =
     (case peerConnection s of
        None \<Rightarrow> (s, [])
      | Some p \<Rightarrow> (s, [Notify OnCallAccepted]))"

text \<open>\<open>onicecandidate\<close>: a discovered candidate is sent as its own signal; the null
  candidate that ends gathering is not sent.\<close>

definition onicecandidate :: "service \<Rightarrow> payload option \<Rightarrow> int \<Rightarrow> int \<Rightarrow> service \<times> effect list" where
  "onicecandidate s cand t k =
     (case cand of
        None \<Rightarrow> (s, [])
      | Some c \<Rightarrow> (s, [sendSignal k s (mkSignal s IceCandidate c t)]))"

text \<open>\<open>oniceconnectionstatechange\<close>, fired when the connection has moved to the ICE state
  \<open>st\<close>; \<open>t\<close> is the reading of \<open>Date.now()\<close> for \<open>startedAt\<close>. Without a connection the
  state read is undefined and nothing happens. An error of the write is caught and logged.\<close>

definition oniceconnectionstatechange :: "service \<Rightarrow> ice_state \<Rightarrow> int \<Rightarrow> service \<times> effect list" where
  "oniceconnectionstatechange s st t =
     (case peerConnection s of
        None \<Rightarrow> (s, [])
      | Some p \<Rightarrow>
          (s\<lparr>peerConnection := Some (p\<lparr>iceConnectionState := st\<rparr>)\<rparr>,
           Notify (OnIceConnectionStateChange st) #
           (if (st = Connected \<or> st = Completed) \<and> \<not> isCallActive s
            then [UpdateCallState (callId s)
                    \<lparr>status = Active, cs_startedAt = Some t, cs_endedAt = None\<rparr>]
            else [])))"

section \<open>Recording\<close>

definition getVideoTracks :: "media_track list \<Rightarrow> media_track list" where
  "getVideoTracks ts = filter (\<lambda>tr. case tr of Track kd l \<Rightarrow> kd = Video) ts"

text \<open>The tracks of the stream given to the recorder: the destination node's one audio track,
  then the first local video track if there is one.\<close>

definition mixedTracks :: "media_track list \<Rightarrow> media_track list \<Rightarrow> rec_track list" where
  "mixedTracks l r =
     MixedAudio l r # (case getVideoTracks l of [] \<Rightarrow> [] | v # vs \<Rightarrow> [Plain v])"

text \<open>\<open>startRecording()\<close>. All of it after the test of the two streams is inside one try:
  an error raised by a call of the media engine ends it there and is logged, with the fields
  assigned so far kept.\<close>

definition startRecording :: "env \<Rightarrow> service \<Rightarrow> service \<times> effect list" where
  "startRecording env s =
     (case localStream s of
        None \<Rightarrow> (s, [])
      | Some l \<Rightarrow>
     (case remoteStream s of
        None \<Rightarrow> (s, [])
      | Some r \<Rightarrow>
          (let s1 = s\<lparr>audioContext := True\<rparr>;
               s2 = s1\<lparr>mixedStream := Some (mixedTracks l r)\<rparr>;
               s3 = s2\<lparr>mediaRecorder := Some Inactive, recordedChunks := []\<rparr>;
               s4 = s3\<lparr>mediaRecorder := Some Recording\<rparr>;
               e1 = [NewAudioContext];
               e2 = e1 @ [CreateMediaStreamSource l];
               e3 = e2 @ [CreateMediaStreamSource r];
               e4 = e3 @ [NewMediaRecorder (mixedTracks l r)];
               e5 = e4 @ [RecorderStart 1000]
           in if throws env NewAudioContext then (s, e1)
              else if throws env (CreateMediaStreamSource l) then (s1, e2)
              else if throws env (CreateMediaStreamSource r) then (s1, e3)
              else if throws env (NewMediaRecorder (mixedTracks l r)) then (s2, e4)
              else if throws env (RecorderStart 1000) then (s3, e5)
              else (s4, e5))))"

text \<open>\<open>ondataavailable\<close>: a chunk of positive size is appended to the buffer.\<close>

definition ondataavailable :: "service \<Rightarrow> nat \<Rightarrow> service" where
  "ondataavailable s sz = (if sz > 0 then s\<lparr>recordedChunks := recordedChunks s @ [sz]\<rparr> else s)"

text \<open>The callback of the call-state subscription set up in \<open>initializeCall\<close>.\<close>

definition onCallState :: "env \<Rightarrow> service \<Rightarrow> call_state \<Rightarrow> service \<times> effect list" where
  "onCallState env s st =
     (let a = (if status st = Active \<and> \<not> isCallActive s
               then startRecording env (s\<lparr>isCallActive := True\<rparr>) else (s, []));
          s1 = fst a
      in (if status st = Ended \<and> \<not> isCallEnded s1
          then (s1\<lparr>isCallEnded := True\<rparr>, Notify (OnCallStateChange st) # snd a @ [Notify OnCallEnded])
          else (s1, Notify (OnCallStateChange st) # snd a)))"

text \<open>\<open>ontrack\<close>, with the tracks of \<open>event.streams[0]\<close>. A stream holds a track once.\<close>

definition addTracks :: "media_track list \<Rightarrow> media_track list \<Rightarrow> media_track list" where
  "addTracks r ts = fold (\<lambda>tr acc. if tr \<in> set acc then acc else acc @ [tr]) ts r"

definition ontrack :: "env \<Rightarrow> service \<Rightarrow> media_track list \<Rightarrow> service \<times> effect list" where
  "ontrack env s ts =
     (case remoteStream s of
        None \<Rightarrow> (s, [])
      | Some r \<Rightarrow>
          (let s1 = s\<lparr>remoteStream := Some (addTracks r ts)\<rparr>
           in if isCallActive s1 \<and> localStream s1 \<noteq> None \<and> mediaRecorder s1 = None
              then (let c = startRecording env s1
                    in (fst c, Notify (OnRemoteStream (addTracks r ts)) # snd c))
              else (s1, [Notify (OnRemoteStream (addTracks r ts))])))"

text \<open>\<open>getRecording()\<close>. A blob is the list of the sizes of its parts. With a recorder that
  is not inactive, \<open>stop()\<close> is called and the blob is built in \<open>onstop\<close>; before that
  event the recorder delivers what it still holds as a last \<open>dataavailable\<close>, of size
  \<open>final\<close> (0 when it holds nothing).\<close>

datatype blob = Blob "nat list"

definition blobSize :: "blob \<Rightarrow> nat" where
  "blobSize b = (case b of Blob parts \<Rightarrow> sum_list parts)"

definition getRecording :: "nat \<Rightarrow> service \<Rightarrow> (service \<times> effect list) \<times> blob option" where
  "getRecording final s =
     (if recorderActive s
      then (let s1 = ondataavailable (s\<lparr>mediaRecorder := Some Inactive\<rparr>) final
            in ((s1, [RecorderStop]),
                if recordedChunks s1 \<noteq> [] then Some (Blob (recordedChunks s1)) else None))
      else ((s, []), if recordedChunks s \<noteq> [] then Some (Blob (recordedChunks s)) else None))"

text \<open>\<open>rejectCall()\<close>: the signal and the write share one try, so an error of the first
  skips the second.\<close>

definition rejectCall :: "env \<Rightarrow> int \<Rightarrow> int \<Rightarrow> int \<Rightarrow> service \<Rightarrow> service \<times> effect list" where
  "rejectCall env t k t2 s =
     (if isCallEnded s then (s, [])
      else
        let s1 = s\<lparr>isCallEnded := True\<rparr>;
            e1 = sendSignal k s1 (mkSignal s1 RejectCallSignal PNull t);
            e2 = UpdateCallState (callId s1)
                   \<lparr>status = Rejected, cs_startedAt = None, cs_endedAt = Some t2\<rparr>;
            c = cleanup s1
        in (fst c, (if throws env e1 then [e1] else [e1, e2]) @ snd c))"

section \<open>Events of a session\<close>

text \<open>What can happen to a service: a call of one of its public methods or the firing of
  one of the callbacks it installed, with the clock readings it takes. Of the runs of the
  mailbox listener the service sees the calls of \<open>handleSignal\<close> and the removals, in
  whatever order the runs make them.\<close>

datatype event =
    EvInitializeCall string string "bool \<times> bool" bool int int
  | EvAcceptCall
  | EvSignal webrtc_signal int int
  | EvSignalRemoved int
  | EvIceCandidate "payload option" int int
  | EvIceConnectionState ice_state int
  | EvCallState call_state
  | EvTrack "media_track list"
  | EvDataAvailable nat
  | EvGetRecording nat
  | EvEndCall int int int
  | EvRejectCall int int int

definition step :: "env \<Rightarrow> service \<Rightarrow> event \<Rightarrow> service \<times> effect list" where
  "step env s ev =
     (case ev of
        EvInitializeCall cid other config isInitiator t k \<Rightarrow>
          initializeCall env t k s cid other config isInitiator
      | EvAcceptCall \<Rightarrow> acceptCall s
      | EvSignal sg t k \<Rightarrow> handleSignal env t k s sg
      | EvSignalRemoved key \<Rightarrow> (s, [RemoveSignal (callId s) (userId s) key])
      | EvIceCandidate cand t k \<Rightarrow> onicecandidate s cand t k
      | EvIceConnectionState st t \<Rightarrow> oniceconnectionstatechange s st t
      | EvCallState st \<Rightarrow> onCallState env s st
      | EvTrack ts \<Rightarrow> ontrack env s ts
      | EvDataAvailable sz \<Rightarrow> (ondataavailable s sz, [])
      | EvGetRecording final \<Rightarrow> fst (getRecording final s)
      | EvEndCall t k t2 \<Rightarrow> endCall t k t2 s
      | EvRejectCall t k t2 \<Rightarrow> rejectCall env t k t2 s)"

fun run :: "env \<Rightarrow> service \<Rightarrow> event list \<Rightarrow> service \<times> effect list" where
  "run env s [] = (s, [])"
| "run env s (ev # evs) =
     (let a = step env s ev; b = run env (fst a) evs in (fst b, snd a @ snd b))"

definition isActiveWrite :: "effect \<Rightarrow> bool" where
  "isActiveWrite e = (case e of UpdateCallState c upd \<Rightarrow> status upd = Active | _ \<Rightarrow> False)"

definition isIceConnected :: "event \<Rightarrow> bool" where
  "isIceConnected ev =
     (case ev of EvIceConnectionState st t \<Rightarrow> st = Connected \<or> st = Completed | _ \<Rightarrow> False)"

text \<open>A service as its constructor leaves it.\<close>

definition newService :: "string \<Rightarrow> service" where
  "newService uid =
     \<lparr>peerConnection = None, localStream = None, remoteStream = None, mixedStream = None,
      audioContext = False, callId = [], userId = uid, otherUserId = [],
      signalUnsubscribe = False, callStateUnsubscribe = False,
      mediaRecorder = None, recordedChunks = [], isCallEnded = False, isCallActive = False\<rparr>"

definition exampleOffer :: webrtc_signal where
  "exampleOffer =
     \<lparr>sig_callId = ''call-1'', fromUserId = ''alice'', toUserId = ''bob'', sig_type = Offer,
      sig_payload = PData ''v=0 offer'', sig_timestamp = 0\<rparr>"

definition exampleCandidate :: "string \<Rightarrow> webrtc_signal" where
  "exampleCandidate c =
     \<lparr>sig_callId = ''call-1'', fromUserId = ''alice'', toUserId = ''bob'',
      sig_type = IceCandidate, sig_payload = PData c, sig_timestamp = 1\<rparr>"

text \<open>The callee's side of a call up to the moment before ICE connects: initialisation as
  receiver, the offer delivered and answered, the call accepted, a remote track received.\<close>

definition handshake :: "event list" where
  "handshake =
     [EvInitializeCall ''call-1'' ''alice'' (True, True) False 0 0,
      EvSignal exampleOffer 0 0,
      EvSignalRemoved 0,
      EvAcceptCall,
      EvTrack [Track Audio ''peer-mic''],
      EvIceConnectionState Checking 3]"

definition ringingDb :: db where
  "ringingDb =
     \<lparr>signals = (\<lambda>m. []),
      callStates = (\<lambda>c. if c = ''call-1''
                          then Some \<lparr>status = Ringing, cs_startedAt = None, cs_endedAt = None\<rparr>
                          else None)\<rparr>"

definition isAddIceCandidate :: "effect \<Rightarrow> bool" where
  "isAddIceCandidate e = (case e of AddIceCandidate c \<Rightarrow> True | _ \<Rightarrow> False)"

text \<open>A candidate, then an offer, then a second candidate, handled one after the other.\<close>

definition candidateOfferCandidate ::
  "env \<Rightarrow> service \<Rightarrow> webrtc_signal \<Rightarrow> webrtc_signal \<Rightarrow> webrtc_signal \<Rightarrow> service \<times> effect list" where
  "candidateOfferCandidate env s c1 off c2 =
     (let a = handleSignal env 0 0 s c1;
          b = handleSignal env 0 0 (fst a) off;
          c = handleSignal env 0 0 (fst b) c2
      in (fst c, snd a @ snd b @ snd c))"

text \<open>Two signals sent one after the other, as the database sees them.\<close>

definition twoSends ::
  "env \<Rightarrow> service \<Rightarrow> int \<Rightarrow> webrtc_signal \<Rightarrow> int \<Rightarrow> webrtc_signal \<Rightarrow> db \<Rightarrow> db" where
  "twoSends env s k1 sg1 k2 sg2 d = dbRun env [sendSignal k1 s sg1, sendSignal k2 s sg2] d"

definition exampleMailboxDb :: db where
  "exampleMailboxDb =
     \<lparr>signals = (\<lambda>m. if m = (''call-1'', ''bob'')
                       then [(1, exampleOffer), (2, exampleCandidate ''host'')] else []),
      callStates = (\<lambda>c. None)\<rparr>"

text \<open>A mailbox of the callee that holds two candidates of the caller.\<close>

definition twoCandidatesDb :: db where
  "twoCandidatesDb =
     \<lparr>signals = (\<lambda>m. if m = (''call-1'', ''bob'')
                       then [(1, exampleCandidate ''host''), (2, exampleCandidate ''srflx'')]
                       else []),
      callStates = (\<lambda>c. None)\<rparr>"

text \<open>The chunks of positive size among the recorder data of a list of events.\<close>

definition chunksOf :: "event list \<Rightarrow> nat list" where
  "chunksOf evs =
     concat (map (\<lambda>ev. case ev of EvDataAvailable sz \<Rightarrow> (if 0 < sz then [sz] else []) | _ \<Rightarrow> [])
               evs)"

definition isInitialize :: "event \<Rightarrow> bool" where
  "isInitialize ev =
     (case ev of EvInitializeCall cid other config isInitiator t k \<Rightarrow> True | _ \<Rightarrow> False)"

definition isRecorderStart :: "effect \<Rightarrow> bool" where
  "isRecorderStart e = (case e of RecorderStart ms \<Rightarrow> True | _ \<Rightarrow> False)"

definition isAudioTrack :: "rec_track \<Rightarrow> bool" where
  "isAudioTrack tr =
     (case tr of MixedAudio l r \<Rightarrow> True | Plain (Track kd lbl) \<Rightarrow> kd = Audio)"

text \<open>The signal with which the peer ends the call, and the call state it writes.\<close>

definition peerEndCall :: webrtc_signal where
  "peerEndCall =
     \<lparr>sig_callId = ''call-1'', fromUserId = ''alice'', toUserId = ''bob'',
      sig_type = EndCallSignal, sig_payload = PNull, sig_timestamp = 7\<rparr>"

text \<open>Clock readings that do not matter.\<close>

definition fixedClock :: "int \<Rightarrow> int \<times> int" where
  "fixedClock key = (8, 8)"

definition endedState :: call_state where
  "endedState = \<lparr>status = Ended, cs_startedAt = Some 1, cs_endedAt = Some 7\<rparr>"

definition activeState :: call_state where
  "activeState = \<lparr>status = Active, cs_startedAt = Some 1, cs_endedAt = None\<rparr>"

section \<open>The page: ending a call\<close>

text \<open>\<open>callSchema\<close> of shared/schema.ts. The body of the PATCH that reports an ended call
  has the fields of a call other than the id, which is in the URL; it is represented as a
  call. Field names carry a prefix where a name is taken.\<close>

datatype call_kind = Voice | VideoCall

record call =
  call_id :: string
  conversationId :: string
  callerId :: string
  callerUsername :: string
  receiverId :: string
  receiverUsername :: string
  call_type :: call_kind
  call_status :: call_status
  startedAt :: "int option"
  endedAt :: "int option"
  duration :: "int option"
  recordingUrl :: "string option"
  timestamp :: int















section \<open>The server: PATCH /api/calls/:callId\<close>

text \<open>The request body is a JSON object: a map from keys to JSON values, of which the
  schemas inspect the type and, for \<open>type\<close> and \<open>status\<close>, the string.\<close>

datatype json = JNull | JBool bool | JNum real | JStr string | JArray | JObject

type_synonym body = "string \<Rightarrow> json option"

definition isString :: "body \<Rightarrow> string \<Rightarrow> bool" where
  "isString b k = (case b k of Some (JStr x) \<Rightarrow> True | _ \<Rightarrow> False)"

definition isNumber :: "body \<Rightarrow> string \<Rightarrow> bool" where
  "isNumber b k = (case b k of Some (JNum x) \<Rightarrow> True | _ \<Rightarrow> False)"

definition isOptionalString :: "body \<Rightarrow> string \<Rightarrow> bool" where
  "isOptionalString b k = (b k = None \<or> isString b k)"

definition isOptionalNumber :: "body \<Rightarrow> string \<Rightarrow> bool" where
  "isOptionalNumber b k = (b k = None \<or> isNumber b k)"

text \<open>Whether \<open>endCallSchema.parse\<close> and \<open>updateCallSchema.parse\<close> accept the body.\<close>

definition endCallSchema :: "body \<Rightarrow> bool" where
  "endCallSchema b =
     (isString b ''conversationId'' \<and> isString b ''callerId'' \<and>
      isString b ''callerUsername'' \<and> isString b ''receiverId'' \<and>
      isString b ''receiverUsername'' \<and>
      (b ''type'' = Some (JStr ''voice'') \<or> b ''type'' = Some (JStr ''video'')) \<and>
      b ''status'' = Some (JStr ''ended'') \<and>
      isNumber b ''startedAt'' \<and> isNumber b ''endedAt'' \<and> isNumber b ''duration'' \<and>
      isOptionalString b ''recordingUrl'' \<and> isNumber b ''timestamp'')"

definition updateCallSchema :: "body \<Rightarrow> bool" where
  "updateCallSchema b =
     ((b ''status'' = None \<or>
       b ''status'' \<in> Some ` JStr ` {''ringing'', ''active'', ''ended'', ''missed'', ''rejected''}) \<and>
      isOptionalNumber b ''startedAt'' \<and> isOptionalNumber b ''endedAt'' \<and>
      isOptionalNumber b ''duration'' \<and> isOptionalString b ''recordingUrl'')"

text \<open>\<open>googleSheetsService.logCall(call, throwOnError)\<close> of server/services/cleanup.ts, as
  far as its outcome goes: without a configured sheet, or when anything in its try block
  raises an error (\<open>appendFails\<close>), it raises if \<open>throwOnError\<close> and returns otherwise.\<close>

record sheets =
  configured :: bool
  appendFails :: bool

datatype outcome = Returned | Raised

definition logCall :: "sheets \<Rightarrow> bool \<Rightarrow> outcome" where
  "logCall sh throwOnError =
     (if \<not> configured sh then (if throwOnError then Raised else Returned)
      else if appendFails sh then (if throwOnError then Raised else Returned)
      else Returned)"

text \<open>The handler: the HTTP status of the response, and whether the write to the sheet was
  awaited.\<close>

definition patchCall :: "sheets \<Rightarrow> body \<Rightarrow> nat \<times> bool" where
  "patchCall sh b =
     (if b ''status'' = Some (JStr ''ended'')
      then (if \<not> endCallSchema b then (400, False)
            else if logCall sh True = Raised then (503, True)
            else (200, True))
      else (if \<not> updateCallSchema b then (400, False) else (200, False)))"

definition endedBody :: body where
  "endedBody =
     (\<lambda>k. if k \<in> {''conversationId'', ''callerId'', ''callerUsername'', ''receiverId'',
                   ''receiverUsername''} then Some (JStr ''x'')
          else if k = ''type'' then Some (JStr ''video'')
          else if k = ''status'' then Some (JStr ''ended'')
          else if k \<in> {''startedAt'', ''endedAt'', ''duration'', ''timestamp''} then Some (JNum 1000)
          else None)"

definition activeBody :: body where
  "activeBody =
     (\<lambda>k. if k = ''status'' then Some (JStr ''active'')
          else if k = ''startedAt'' then Some (JNum 1000)
          else None)"

section \<open>Theorems\<close>

lemma endCall_latched: "isCallEnded s \<Longrightarrow> endCall t k t2 s = (s, [])"
  by (simp add: endCall_def)

lemma endCall_sets_latch: "isCallEnded (fst (endCall t k t2 s))"
  by (simp add: endCall_def cleanup_def Let_def)

lemma endCalls_latched: "isCallEnded s \<Longrightarrow> endCalls cs s = (s, [])"
  by (induction cs) (auto simp: endCall_latched Let_def)

lemma endCalls_first:
  "endCalls ((t, k, t2) # cs) s = endCall t k t2 s"
proof -
  have "endCalls cs (fst (endCall t k t2 s)) = (fst (endCall t k t2 s), [])"
    by (rule endCalls_latched) (rule endCall_sets_latch)
  then show ?thesis by (simp add: Let_def)
qed

lemma filter_map_TrackStop_release: "filter isLocalRelease (map TrackStop ts) = map TrackStop ts"
  by (induction ts) (simp_all add: isLocalRelease_def)

lemma filter_map_TrackStop_signal: "filter isEndCallSignal (map TrackStop ts) = []"
  by (induction ts) (simp_all add: isEndCallSignal_def)

lemma filter_map_TrackStop_write: "filter isEndedWrite (map TrackStop ts) = []"
  by (induction ts) (simp_all add: isEndedWrite_def)

lemma endCall_effects:
  "\<not> isCallEnded s \<Longrightarrow>
   snd (endCall t k t2 s) = localReleases s @ cleanupRemoteResources t k t2 s"
  by (simp add: endCall_def Let_def cleanup_def localReleases_def recorderActive_def
      cleanupRemoteResources_def endCallSignal_def)

lemma localReleases_release: "filter isLocalRelease (localReleases s) = localReleases s"
  by (simp add: localReleases_def filter_map_TrackStop_release isLocalRelease_def
      split: option.splits)

lemma localReleases_signal: "filter isEndCallSignal (localReleases s) = []"
  by (simp add: localReleases_def filter_map_TrackStop_signal isEndCallSignal_def
      split: option.splits)

lemma localReleases_write: "filter isEndedWrite (localReleases s) = []"
  by (simp add: localReleases_def filter_map_TrackStop_write isEndedWrite_def
      split: option.splits)

text \<open>
  From a session whose latch \<open>isCallEnded\<close> is not yet set, \<open>endCall()\<close> invoked
  N \<ge> 1 times makes the calls of the first invocation alone and ends in its state: exactly
  one \<open>end-call\<close> signal, addressed to the peer, exactly one write of status \<open>ended\<close>,
  and every resource the session held released exactly once. Any further invocation changes
  nothing and calls nothing.
\<close>

lemma endCall_first_invocation:
  "\<not> isCallEnded s \<Longrightarrow>
   endCalls ((t, k, t2) # cs) s = endCall t k t2 s \<and>
   filter isEndCallSignal (snd (endCalls ((t, k, t2) # cs) s)) =
     [SetSignal (callId s) (otherUserId s) k (endCallSignal s t)] \<and>
   filter isEndedWrite (snd (endCalls ((t, k, t2) # cs) s)) =
     [UpdateCallState (callId s) \<lparr>status = Ended, cs_startedAt = None, cs_endedAt = Some t2\<rparr>] \<and>
   filter isLocalRelease (snd (endCalls ((t, k, t2) # cs) s)) = localReleases s \<and>
   endCall t' k' t2' (fst (endCalls ((t, k, t2) # cs) s)) =
     (fst (endCalls ((t, k, t2) # cs) s), [])"
proof -
  assume live: "\<not> isCallEnded s"
  have first: "endCalls ((t, k, t2) # cs) s = endCall t k t2 s"
    by (rule endCalls_first)
  have effs: "snd (endCall t k t2 s) = localReleases s @ cleanupRemoteResources t k t2 s"
    using live by (rule endCall_effects)
  have sig: "filter isEndCallSignal (snd (endCall t k t2 s)) =
      [SetSignal (callId s) (otherUserId s) k (endCallSignal s t)]"
    by (simp add: effs localReleases_signal)
       (simp add: cleanupRemoteResources_def isEndCallSignal_def endCallSignal_def)
  have wr: "filter isEndedWrite (snd (endCall t k t2 s)) =
      [UpdateCallState (callId s) \<lparr>status = Ended, cs_startedAt = None, cs_endedAt = Some t2\<rparr>]"
    by (simp add: effs localReleases_write)
       (simp add: cleanupRemoteResources_def isEndedWrite_def endCallSignal_def)
  have rel: "filter isLocalRelease (snd (endCall t k t2 s)) = localReleases s"
    by (simp add: effs localReleases_release)
       (simp add: cleanupRemoteResources_def isLocalRelease_def)
  have again: "endCall t' k' t2' (fst (endCall t k t2 s)) = (fst (endCall t k t2 s), [])"
    by (rule endCall_latched) (rule endCall_sets_latch)
  show ?thesis
    unfolding first using sig wr rel again by simp
qed

text \<open>
  C1 (idempotent termination): the code does not do what the claim says for a session that a
  remote trigger has ended. The callee's service is in an active call, with its recorder
  running, when the peer's \<open>end-call\<close> signal is handled or the call state \<open>ended\<close> is
  seen. Either sets the latch and nothing else. Every \<open>endCall()\<close> invoked afterwards, here
  three, finds the latch set and returns at once: no \<open>end-call\<close> signal is sent, no
  \<open>ended\<close> is written and nothing is released, while the session still holds its recorder,
  its subscriptions, its tracks, its connection and its audio context.
\<close>

theorem endCall_after_remote_end:
  "endCalls [(9, 9, 9), (10, 10, 10), (11, 11, 11)]
     (fst (run noFailure exampleSession [EvSignal peerEndCall 8 8, EvSignalRemoved 7])) =
     (exampleSession\<lparr>isCallEnded := True\<rparr>, []) \<and>
   endCalls [(9, 9, 9), (10, 10, 10), (11, 11, 11)]
     (fst (run noFailure exampleSession [EvCallState endedState])) =
     (exampleSession\<lparr>isCallEnded := True\<rparr>, []) \<and>
   localReleases (exampleSession\<lparr>isCallEnded := True\<rparr>) =
     [RecorderStop, SignalUnsubscribe, CallStateUnsubscribe, TrackStop (Track Audio ''mic''),
      TrackStop (Track Video ''camera''), PeerClose, AudioContextClose]"
proof -
  have sig: "fst (run noFailure exampleSession [EvSignal peerEndCall 8 8, EvSignalRemoved 7]) =
      exampleSession\<lparr>isCallEnded := True\<rparr>"
    by (simp add: Let_def step_def handleSignal_def peerEndCall_def exampleSession_def)
  have st: "fst (run noFailure exampleSession [EvCallState endedState]) =
      exampleSession\<lparr>isCallEnded := True\<rparr>"
    by (simp add: Let_def step_def onCallState_def endedState_def exampleSession_def)
  have none: "endCalls cs (exampleSession\<lparr>isCallEnded := True\<rparr>) =
      (exampleSession\<lparr>isCallEnded := True\<rparr>, [])" for cs
    by (rule endCalls_latched) simp
  have held: "localReleases (exampleSession\<lparr>isCallEnded := True\<rparr>) =
      [RecorderStop, SignalUnsubscribe, CallStateUnsubscribe, TrackStop (Track Audio ''mic''),
       TrackStop (Track Video ''camera''), PeerClose, AudioContextClose]"
    by (simp add: localReleases_def recorderActive_def exampleSession_def)
  show ?thesis
    unfolding sig st using none held by blast
qed

lemma handleSignal_noActive: "filter isActiveWrite (snd (handleSignal env t k s sg)) = []"
  by (simp add: handleSignal_def handleOffer_def handleAnswer_def sendSignal_def Let_def
      isActiveWrite_def split: option.splits signal_type.splits)


lemma startRecording_noActive: "filter isActiveWrite (snd (startRecording env s)) = []"
  by (simp add: startRecording_def Let_def isActiveWrite_def split: option.splits)

lemma map_AddTrack_noActive: "filter isActiveWrite (map AddTrack ts) = []"
  by (induction ts) (simp_all add: isActiveWrite_def)

lemma map_TrackStop_noActive: "filter isActiveWrite (map TrackStop ts) = []"
  by (induction ts) (simp_all add: isActiveWrite_def)

lemma cleanup_noActive: "filter isActiveWrite (snd (cleanup s)) = []"
  by (simp add: cleanup_def map_TrackStop_noActive isActiveWrite_def split: option.splits)

lemma createOffer_noActive: "filter isActiveWrite (snd (fst (createOffer env t k s))) = []"
  by (simp add: createOffer_def sendSignal_def Let_def isActiveWrite_def split: option.splits)

lemma setupPeerConnection_noActive: "filter isActiveWrite (snd (setupPeerConnection s)) = []"
  by (simp add: setupPeerConnection_def map_AddTrack_noActive split: option.splits)

lemma initializeCall_noActive:
  "filter isActiveWrite (snd (initializeCall env t k s cid other config isInitiator)) = []"
  by (simp add: initializeCall_def Let_def setupPeerConnection_noActive createOffer_noActive)
     (simp add: isActiveWrite_def)

lemma onCallState_noActive: "filter isActiveWrite (snd (onCallState env s st)) = []"
  by (simp add: onCallState_def Let_def startRecording_noActive) (simp add: isActiveWrite_def)

lemma ontrack_noActive: "filter isActiveWrite (snd (ontrack env s ts)) = []"
  by (simp add: ontrack_def Let_def startRecording_noActive split: option.splits)
     (simp add: isActiveWrite_def)

lemma endCall_noActive: "filter isActiveWrite (snd (endCall t k t2 s)) = []"
  by (simp add: endCall_def Let_def cleanup_noActive)
     (simp add: cleanupRemoteResources_def isActiveWrite_def)

lemma rejectCall_noActive: "filter isActiveWrite (snd (rejectCall env t k t2 s)) = []"
  by (simp add: rejectCall_def Let_def cleanup_noActive)
     (simp add: sendSignal_def isActiveWrite_def)

lemma step_noActive:
  "\<not> isIceConnected ev \<Longrightarrow> filter isActiveWrite (snd (step env s ev)) = []"
proof (cases ev)
  case (EvIceConnectionState st t)
  assume "\<not> isIceConnected ev"
  then have "st \<noteq> Connected" and "st \<noteq> Completed"
    by (simp_all add: EvIceConnectionState isIceConnected_def)
  then show ?thesis
    by (simp add: EvIceConnectionState step_def oniceconnectionstatechange_def isActiveWrite_def
        split: option.splits)
next
  case (EvGetRecording final)
  show ?thesis
    by (simp add: EvGetRecording step_def getRecording_def Let_def isActiveWrite_def)
qed (simp_all add: step_def initializeCall_noActive acceptCall_def handleSignal_noActive
    onicecandidate_def sendSignal_def onCallState_noActive
    ontrack_noActive endCall_noActive rejectCall_noActive isActiveWrite_def
    split: option.splits)

lemma run_noActive:
  "\<forall>ev \<in> set evs. \<not> isIceConnected ev \<Longrightarrow> filter isActiveWrite (snd (run env s evs)) = []"
  by (induction evs arbitrary: s) (simp_all add: Let_def step_noActive)

lemma dbApply_keeps_inactive:
  "\<not> isActiveWrite e \<Longrightarrow> \<forall>c st. callStates d c = Some st \<longrightarrow> status st \<noteq> Active \<Longrightarrow>
   \<forall>c st. callStates (dbApply e d) c = Some st \<longrightarrow> status st \<noteq> Active"
  by (cases e) (auto simp: dbApply_def isActiveWrite_def mergeCallState_def split: option.splits)

lemma dbRun_keeps_inactive:
  "filter isActiveWrite es = [] \<Longrightarrow> \<forall>c st. callStates d c = Some st \<longrightarrow> status st \<noteq> Active \<Longrightarrow>
   \<forall>c st. callStates (dbRun env es d) c = Some st \<longrightarrow> status st \<noteq> Active"
proof (induction es arbitrary: d)
  case Nil
  then show ?case by (simp add: dbRun_def)
next
  case (Cons e es)
  from Cons.prems(1) have e: "\<not> isActiveWrite e" and es: "filter isActiveWrite es = []"
    by (auto split: if_splits)
  have step: "\<forall>c st. callStates (if throws env e then d else dbApply e d) c = Some st
      \<longrightarrow> status st \<noteq> Active"
    using dbApply_keeps_inactive [OF e Cons.prems(2)] Cons.prems(2) by simp
  have "dbRun env (e # es) d = dbRun env es (if throws env e then d else dbApply e d)"
    by (simp add: dbRun_def)
  then show ?case
    using Cons.IH [OF es step] by simp
qed

text \<open>
  C2 (no premature activation). Of all that can happen to a service (initialisation, accepting,
  delivery of signals, locally found candidates, changes of the ICE state, changes of the call
  state, remote tracks, recorder data, fetching the recording, ending, rejecting) only a change
  of the ICE connection state to \<open>connected\<close> or \<open>completed\<close> writes the status
  \<open>active\<close>. So after any events none of which is such a change, the service has written
  no \<open>active\<close>, and a call-state store that held no \<open>active\<close> record holds none after
  its writes; in particular \<open>acceptCall\<close> and the handling of an offer or an answer write
  none. The ICE change itself, on a service that has a connection and has not yet seen the call
  active, writes exactly one update: status \<open>active\<close> with \<open>startedAt\<close> set to the clock
  reading.
\<close>

theorem no_premature_activation:
  assumes "\<forall>ev \<in> set evs. \<not> isIceConnected ev"
    and "\<forall>c cs. callStates d c = Some cs \<longrightarrow> status cs \<noteq> Active"
    and "peerConnection s' \<noteq> None" and "\<not> isCallActive s'"
    and "st = Connected \<or> st = Completed"
  shows "filter isActiveWrite (snd (run env s evs)) = [] \<and>
    (\<forall>c cs. callStates (dbRun env (snd (run env s evs)) d) c = Some cs \<longrightarrow> status cs \<noteq> Active) \<and>
    filter isActiveWrite (snd (acceptCall s)) = [] \<and>
    filter isActiveWrite (snd (handleSignal env t k s sg)) = [] \<and>
    filter isActiveWrite (snd (step env s' (EvIceConnectionState st t))) =
      [UpdateCallState (callId s') \<lparr>status = Active, cs_startedAt = Some t, cs_endedAt = None\<rparr>]"
proof -
  have quiet: "filter isActiveWrite (snd (run env s evs)) = []"
    using assms(1) by (rule run_noActive)
  have store: "\<forall>c cs. callStates (dbRun env (snd (run env s evs)) d) c = Some cs
      \<longrightarrow> status cs \<noteq> Active"
    using quiet assms(2) by (rule dbRun_keeps_inactive)
  have accept: "filter isActiveWrite (snd (acceptCall s)) = []"
    by (simp add: acceptCall_def isActiveWrite_def split: option.splits)
  have ice: "filter isActiveWrite (snd (step env s' (EvIceConnectionState st t))) =
      [UpdateCallState (callId s') \<lparr>status = Active, cs_startedAt = Some t, cs_endedAt = None\<rparr>]"
    using assms(3-5)
    by (auto simp: step_def oniceconnectionstatechange_def isActiveWrite_def)
  show ?thesis
    using quiet store accept ice handleSignal_noActive by blast
qed

lemma handshake_state:
  "fst (run noFailure (newService ''bob'') handshake) =
     \<lparr>peerConnection = Some \<lparr>remoteDescription = Some (PData ''v=0 offer''),
                              localDescription = Some (PData ''v=0 answer''),
                              iceConnectionState = Checking\<rparr>,
      localStream = Some [Track Audio ''mic'', Track Video ''camera''],
      remoteStream = Some [Track Audio ''peer-mic''],
      mixedStream = None,
      audioContext = False, callId = ''call-1'', userId = ''bob'', otherUserId = ''alice'',
      signalUnsubscribe = True, callStateUnsubscribe = True,
      mediaRecorder = None, recordedChunks = [],
      isCallEnded = False, isCallActive = False\<rparr>"
  by (simp add: handshake_def newService_def noFailure_def step_def initializeCall_def
      setupPeerConnection_def newPeerConnection_def exampleOffer_def
      handleSignal_def handleOffer_def sendSignal_def mkSignal_def acceptCall_def ontrack_def
      addTracks_def oniceconnectionstatechange_def Let_def)

theorem no_premature_activation_witness:
  "filter isActiveWrite (snd (run noFailure (newService ''bob'') handshake)) = [] \<and>
   map_option status (callStates (dbRun noFailure
       (snd (run noFailure (newService ''bob'') handshake)) ringingDb) ''call-1'') \<noteq> Some Active \<and>
   filter isActiveWrite (snd (step noFailure (fst (run noFailure (newService ''bob'') handshake))
       (EvIceConnectionState Connected 5))) =
     [UpdateCallState ''call-1'' \<lparr>status = Active, cs_startedAt = Some 5, cs_endedAt = None\<rparr>]"
proof -
  let ?s' = "fst (run noFailure (newService ''bob'') handshake)"
  let ?d' = "dbRun noFailure (snd (run noFailure (newService ''bob'') handshake)) ringingDb"
  have h1: "\<forall>ev \<in> set handshake. \<not> isIceConnected ev"
    by (simp add: handshake_def isIceConnected_def)
  have h2: "\<forall>c cs. callStates ringingDb c = Some cs \<longrightarrow> status cs \<noteq> Active"
    by (simp add: ringingDb_def)
  have h3: "peerConnection ?s' \<noteq> None"
    by (simp add: handshake_state)
  have h4: "\<not> isCallActive ?s'"
    by (simp add: handshake_state)
  have h5: "Connected = Connected \<or> Connected = Completed"
    by simp
  have cid: "callId ?s' = ''call-1''"
    by (simp add: handshake_state)
  note inst = no_premature_activation [where env = noFailure and s = "newService ''bob''"
      and t = 5, OF h1 h2 h3 h4 h5]
  from inst have store: "\<forall>c cs. callStates ?d' c = Some cs \<longrightarrow> status cs \<noteq> Active"
    by blast
  have inactive: "map_option status (callStates ?d' ''call-1'') \<noteq> Some Active"
  proof (cases "callStates ?d' ''call-1''")
    case None
    then show ?thesis by simp
  next
    case (Some cs)
    with store have "status cs \<noteq> Active" by blast
    with Some show ?thesis by simp
  qed
  show ?thesis
    using inactive inst [unfolded cid] by blast
qed

text \<open>
  C4 (candidate deferral). An \<open>ice-candidate\<close> signal handled by a service whose connection
  has no remote description is dropped: nothing is called and the state, in which a queue would
  have to live, is the same as before. One handled when the connection has a remote description
  is passed to \<open>addIceCandidate\<close>. So of a candidate that comes before the offer and one that
  comes after it, only the second is ever applied.
\<close>

theorem candidate_deferral:
  assumes "sig_type c1 = IceCandidate" and "sig_type c2 = IceCandidate"
    and "sig_type off = Offer"
    and "peerConnection s = Some p"
    and "\<not> throws env (SetRemoteDescription (sig_payload off))"
  shows "(remoteDescription p = None \<longrightarrow> handleSignal env t k s c1 = (s, [])) \<and>
    (remoteDescription p \<noteq> None \<longrightarrow>
       handleSignal env t k s c1 = (s, [AddIceCandidate (sig_payload c1)])) \<and>
    (remoteDescription p = None \<longrightarrow>
       filter isAddIceCandidate (snd (candidateOfferCandidate env s c1 off c2)) =
         [AddIceCandidate (sig_payload c2)])"
proof -
  have drop: "remoteDescription p = None \<Longrightarrow> handleSignal env t k s c1 = (s, [])" for t k
    using assms(1,4) by (simp add: handleSignal_def)
  have appl: "remoteDescription p \<noteq> None \<Longrightarrow>
      handleSignal env t k s c1 = (s, [AddIceCandidate (sig_payload c1)])"
    using assms(1,4) by (simp add: handleSignal_def)
  have seq: "filter isAddIceCandidate (snd (candidateOfferCandidate env s c1 off c2)) =
      [AddIceCandidate (sig_payload c2)]" if none: "remoteDescription p = None"
  proof -
    let ?b = "handleSignal env 0 0 s off"
    have b_pc: "\<exists>q. peerConnection (fst ?b) = Some q \<and> remoteDescription q \<noteq> None"
      using assms(3,4,5) by (simp add: handleSignal_def handleOffer_def Let_def)
    have b_eff: "filter isAddIceCandidate (snd ?b) = []"
      using assms(3,4)
      by (simp add: handleSignal_def handleOffer_def sendSignal_def Let_def isAddIceCandidate_def)
    from b_pc obtain q where q: "peerConnection (fst ?b) = Some q" "remoteDescription q \<noteq> None"
      by blast
    have c_eff: "snd (handleSignal env 0 0 (fst ?b) c2) = [AddIceCandidate (sig_payload c2)]"
      using assms(2) q by (simp add: handleSignal_def)
    show ?thesis
      by (simp add: candidateOfferCandidate_def Let_def drop [OF none] b_eff c_eff)
         (simp add: isAddIceCandidate_def)
  qed
  show ?thesis
    using drop appl seq by blast
qed

theorem candidate_deferral_witness:
  "handleSignal noFailure 0 0 (fst (step noFailure (newService ''bob'')
       (EvInitializeCall ''call-1'' ''alice'' (True, True) False 0 0))) (exampleCandidate ''early'') =
     (fst (step noFailure (newService ''bob'')
       (EvInitializeCall ''call-1'' ''alice'' (True, True) False 0 0)), []) \<and>
   filter isAddIceCandidate (snd (candidateOfferCandidate noFailure
       (fst (step noFailure (newService ''bob'')
          (EvInitializeCall ''call-1'' ''alice'' (True, True) False 0 0)))
       (exampleCandidate ''early'') exampleOffer (exampleCandidate ''late''))) =
     [AddIceCandidate (PData ''late'')]"
proof -
  let ?s = "fst (step noFailure (newService ''bob'')
       (EvInitializeCall ''call-1'' ''alice'' (True, True) False 0 0))"
  have pc: "peerConnection ?s = Some newPeerConnection"
    by (simp add: step_def initializeCall_def setupPeerConnection_def newService_def
        noFailure_def Let_def)
  have none: "remoteDescription newPeerConnection = None"
    by (simp add: newPeerConnection_def)
  have ok: "\<not> throws noFailure (SetRemoteDescription (sig_payload exampleOffer))"
    by (simp add: noFailure_def)
  have ty: "sig_type (exampleCandidate ''early'') = IceCandidate"
    "sig_type (exampleCandidate ''late'') = IceCandidate" "sig_type exampleOffer = Offer"
    by (simp_all add: exampleCandidate_def exampleOffer_def)
  have pl: "sig_payload (exampleCandidate ''late'') = PData ''late''"
    by (simp add: exampleCandidate_def)
  note inst = candidate_deferral [where t = 0 and k = 0, OF ty(1) ty(2) ty(3) pc ok]
  show ?thesis
    using inst none pl by simp
qed

lemma set_setChild_subset: "set (setChild k v cs) \<subseteq> insert (k, v) (set cs)"
  by (induction cs) (auto split: if_splits)

lemma setChild_mem: "(k, v) \<in> set (setChild k v cs)"
  by (induction cs) auto

lemma setChild_keeps_other: "c \<in> set cs \<Longrightarrow> fst c \<noteq> k \<Longrightarrow> c \<in> set (setChild k v cs)"
  by (induction cs) auto

lemma set_setChild_sorted:
  "sorted_wrt (<) (map fst cs) \<Longrightarrow>
   set (setChild k v cs) = insert (k, v) {c \<in> set cs. fst c \<noteq> k}"
proof (induction cs)
  case Nil
  show ?case by simp
next
  case (Cons c cs)
  obtain k' v' where c: "c = (k', v')" by (cases c)
  from Cons.prems have above: "\<forall>x \<in> set cs. k' < fst x" and sorted: "sorted_wrt (<) (map fst cs)"
    by (auto simp: c)
  show ?case
  proof (cases "k < k'")
    case True
    with above show ?thesis by (auto simp: c)
  next
    case False
    show ?thesis
    proof (cases "k = k'")
      case True
      with above show ?thesis by (auto simp: c)
    next
      case False
      with \<open>\<not> k < k'\<close> Cons.IH [OF sorted] show ?thesis by (auto simp: c)
    qed
  qed
qed

lemma sorted_setChild:
  "sorted_wrt (<) (map fst cs) \<Longrightarrow> sorted_wrt (<) (map fst (setChild k v cs))"
proof (induction cs)
  case Nil
  show ?case by simp
next
  case (Cons c cs)
  obtain k' v' where c: "c = (k', v')" by (cases c)
  from Cons.prems have above: "\<forall>x \<in> set cs. k' < fst x" and sorted: "sorted_wrt (<) (map fst cs)"
    by (auto simp: c)
  have "\<forall>x \<in> set (setChild k v cs). k' < fst x" if "k' < k"
    using set_setChild_subset [of k v cs] above that by auto
  with Cons.IH [OF sorted] above sorted show ?case
    by (auto simp: c)
qed

lemma sorted_keys_order:
  assumes "sorted_wrt (<) (map fst cs)" and "(k1, a) \<in> set cs" and "(k2, b) \<in> set cs"
    and "k1 < (k2::int)"
  shows "\<exists>us vs ws. cs = us @ (k1, a) # vs @ (k2, b) # ws"
proof -
  from assms(2) obtain us rest where split: "cs = us @ (k1, a) # rest"
    by (meson split_list)
  have "(k2, b) \<notin> set us"
  proof
    assume "(k2, b) \<in> set us"
    with assms(1) have "k2 < k1"
      by (auto simp: split sorted_wrt_append)
    with assms(4) show False by simp
  qed
  with assms(3,4) have "(k2, b) \<in> set rest"
    by (auto simp: split)
  then obtain vs ws where "rest = vs @ (k2, b) # ws"
    by (meson split_list)
  with split show ?thesis by blast
qed

lemma mailbox_after_send:
  "\<not> throws env (sendSignal k s sg) \<Longrightarrow>
   signals (dbRun env [sendSignal k s sg] d) (callId s, toUserId sg) =
     setChild k sg (signals d (callId s, toUserId sg))"
  by (simp add: dbRun_def dbApply_def sendSignal_def)

text \<open>
  C9 (mailbox append and per-sender ordering), as amended. \<open>sendSignal\<close> writes the signal
  at the child of the recipient's mailbox whose key is the clock reading \<open>Date.now()\<close>. Into a
  mailbox in key order, a send keeps every child at another key and puts the signal at its
  key, replacing the child already there if there is one. Two sends to the same recipient at
  increasing clock readings both remain, the first before the second in the order in which the
  mailbox is read, together with every child at a third key.
\<close>

theorem sendSignal_mailbox:
  assumes "sorted_wrt (<) (map fst (signals d (callId s, u)))"
    and "toUserId sg1 = u" and "toUserId sg2 = u"
    and "\<not> throws env (sendSignal k1 s sg1)" and "\<not> throws env (sendSignal k2 s sg2)"
    and "k1 < k2"
  shows "set (signals (dbRun env [sendSignal k1 s sg1] d) (callId s, u)) =
      insert (k1, sg1) {c \<in> set (signals d (callId s, u)). fst c \<noteq> k1} \<and>
    (\<exists>us vs ws. signals (twoSends env s k1 sg1 k2 sg2 d) (callId s, u) =
       us @ (k1, sg1) # vs @ (k2, sg2) # ws) \<and>
    (\<forall>c \<in> set (signals d (callId s, u)). fst c \<noteq> k1 \<and> fst c \<noteq> k2 \<longrightarrow>
       c \<in> set (signals (twoSends env s k1 sg1 k2 sg2 d) (callId s, u)))"
proof -
  let ?m = "signals d (callId s, u)"
  let ?m1 = "setChild k1 sg1 ?m"
  let ?m2 = "setChild k2 sg2 ?m1"
  have one: "signals (dbRun env [sendSignal k1 s sg1] d) (callId s, u) = ?m1"
    using mailbox_after_send [OF assms(4), of d] assms(2) by simp
  have two: "signals (twoSends env s k1 sg1 k2 sg2 d) (callId s, u) = ?m2"
    using assms(2-5) by (simp add: twoSends_def dbRun_def dbApply_def sendSignal_def)
  have s1: "sorted_wrt (<) (map fst ?m1)"
    using assms(1) by (rule sorted_setChild)
  have s2: "sorted_wrt (<) (map fst ?m2)"
    using s1 by (rule sorted_setChild)
  have first: "set ?m1 = insert (k1, sg1) {c \<in> set ?m. fst c \<noteq> k1}"
    using assms(1) by (rule set_setChild_sorted)
  have in1: "(k1, sg1) \<in> set ?m2"
  proof (rule setChild_keeps_other)
    show "(k1, sg1) \<in> set ?m1" by (rule setChild_mem)
    show "fst (k1, sg1) \<noteq> k2" using assms(6) by simp
  qed
  have in2: "(k2, sg2) \<in> set ?m2"
    by (rule setChild_mem)
  have order: "\<exists>us vs ws. ?m2 = us @ (k1, sg1) # vs @ (k2, sg2) # ws"
    using s2 in1 in2 assms(6) by (rule sorted_keys_order)
  have kept: "\<forall>c \<in> set ?m. fst c \<noteq> k1 \<and> fst c \<noteq> k2 \<longrightarrow> c \<in> set ?m2"
    by (simp add: setChild_keeps_other)
  show ?thesis
    unfolding one two using first order kept by blast
qed

theorem sendSignal_mailbox_witness:
  "sorted_wrt (<) (map fst (signals exampleMailboxDb (callId exampleSession, ''bob''))) \<and>
   signals (twoSends noFailure exampleSession 5 (exampleCandidate ''a'') 6
       (exampleCandidate ''b'') exampleMailboxDb) (callId exampleSession, ''bob'') =
     [(1, exampleOffer), (2, exampleCandidate ''host''), (5, exampleCandidate ''a''),
      (6, exampleCandidate ''b'')]"
proof -
  have h1: "sorted_wrt (<) (map fst (signals exampleMailboxDb (callId exampleSession, ''bob'')))"
    by (simp add: exampleMailboxDb_def exampleSession_def)
  have h2: "toUserId (exampleCandidate ''a'') = ''bob''" "toUserId (exampleCandidate ''b'') = ''bob''"
    by (simp_all add: exampleCandidate_def)
  have h4: "\<not> throws noFailure (sendSignal 5 exampleSession (exampleCandidate ''a''))"
    "\<not> throws noFailure (sendSignal 6 exampleSession (exampleCandidate ''b''))"
    by (simp_all add: noFailure_def)
  have h6: "(5::int) < 6" by simp
  note inst = sendSignal_mailbox [OF h1 h2(1) h2(2) h4(1) h4(2) h6]
  have val: "signals (twoSends noFailure exampleSession 5 (exampleCandidate ''a'') 6
       (exampleCandidate ''b'') exampleMailboxDb) (callId exampleSession, ''bob'') =
     [(1, exampleOffer), (2, exampleCandidate ''host''), (5, exampleCandidate ''a''),
      (6, exampleCandidate ''b'')]"
    by (simp add: twoSends_def dbRun_def dbApply_def sendSignal_def noFailure_def
        exampleMailboxDb_def exampleSession_def exampleCandidate_def)
  show ?thesis
    using h1 val inst by blast
qed

text \<open>C9 as stated fails: two sends within the same millisecond take the same key, and the
  second replaces the first.\<close>

theorem sendSignal_same_key_counterexample:
  "signals (twoSends noFailure exampleSession 5 (exampleCandidate ''a'') 5
       (exampleCandidate ''b'') exampleMailboxDb) (callId exampleSession, ''bob'') =
     [(1, exampleOffer), (2, exampleCandidate ''host''), (5, exampleCandidate ''b'')]"
  by (simp add: twoSends_def dbRun_def dbApply_def sendSignal_def noFailure_def
      exampleMailboxDb_def exampleSession_def exampleCandidate_def)

text \<open>
  C5 (a signal is consumed at most once): the code does not do what the claim says. Each run
  of the listener does remove a child right after handling it, whatever the handling did. But
  the runs overlap. The callee listens to a mailbox that holds two candidates of the caller.
  The first run collects both and handles the first; when it removes that child, the change
  of the mailbox makes the database call the callback again, and the second run collects the
  second candidate and handles it; the first run then goes on with its own array and handles
  the second candidate again. So the second candidate is passed to \<open>addIceCandidate\<close>
  twice and its child is removed twice.
\<close>

theorem signal_handled_twice:
  "signals twoCandidatesDb (callId exampleSession, userId exampleSession) =
     [(1, exampleCandidate ''host''), (2, exampleCandidate ''srflx'')] \<and>
   snd (listenForSignals noFailure fixedClock exampleSession twoCandidatesDb
      [Resumes 0, Resumes 0, Resumes 1, Resumes 0, Resumes 0, Resumes 1]) =
     [AddIceCandidate (PData ''host''), RemoveSignal ''call-1'' ''bob'' 1,
      AddIceCandidate (PData ''srflx''), AddIceCandidate (PData ''srflx''),
      RemoveSignal ''call-1'' ''bob'' 2, RemoveSignal ''call-1'' ''bob'' 2] \<and>
   map collected (runs (fst (listenForSignals noFailure fixedClock exampleSession twoCandidatesDb
      [Resumes 0, Resumes 0, Resumes 1, Resumes 0, Resumes 0, Resumes 1]))) = [[], []]"
proof -
  let ?a = "exampleCandidate ''host''" and ?b = "exampleCandidate ''srflx''"
  let ?m = "(''call-1'', ''bob'')"
  let ?r = "\<lambda>cs w. \<lparr>collected = cs, awaiting = w\<rparr>"
  let ?L = "\<lambda>kids rs. \<lparr>owner = exampleSession,
      store = \<lparr>signals = (\<lambda>m. if m = ?m then kids else []), callStates = (\<lambda>c. None)\<rparr>,
      runs = rs\<rparr>"
  let ?E = "\<lambda>rs. \<lparr>owner = exampleSession,
      store = \<lparr>signals = (\<lambda>m. []), callStates = (\<lambda>c. None)\<rparr>, runs = rs\<rparr>"
  have ids: "callId exampleSession = ''call-1''" "userId exampleSession = ''bob''"
    "signalUnsubscribe exampleSession" "exampleSession\<lparr>signalUnsubscribe := True\<rparr> = exampleSession"
    by (simp_all add: exampleSession_def)
  have other: "fromOther exampleSession (k, exampleCandidate c)" for k c
    by (simp add: fromOther_def exampleCandidate_def exampleSession_def)
  have handle: "handleSignal noFailure t k exampleSession (exampleCandidate c) =
      (exampleSession, [AddIceCandidate (PData c)])" for t k c
    by (simp add: handleSignal_def exampleCandidate_def exampleSession_def)
  have call: "callHandleSignal noFailure fixedClock (?L kids rs) (k, exampleCandidate c) =
      (?L kids rs, [AddIceCandidate (PData c)])" for kids rs k c
    by (simp add: callHandleSignal_def handle dbRun_def dbApply_def Let_def)
  have mb: "mailboxOf (?L kids rs) = kids" for kids rs
    by (simp add: mailboxOf_def ids)
  have rm: "dbApply (RemoveSignal ''call-1'' ''bob'' k)
      \<lparr>signals = (\<lambda>m. if m = ?m then kids else []), callStates = (\<lambda>c. None)\<rparr> =
      \<lparr>signals = (\<lambda>m. if m = ?m then kids' else []), callStates = (\<lambda>c. None)\<rparr>"
    if "removeChild k kids = kids'" for k kids kids'
    using that by (auto simp: dbApply_def fun_eq_iff)
  have mb0: "mailboxOf (?E rs) = []" for rs
    by (simp add: mailboxOf_def)
  have rm0: "dbApply (RemoveSignal ''call-1'' ''bob'' k)
      \<lparr>signals = (\<lambda>m. []), callStates = (\<lambda>c. None)\<rparr> =
      \<lparr>signals = (\<lambda>m. []), callStates = (\<lambda>c. None)\<rparr>" for k
    by (auto simp: dbApply_def removeChild_def fun_eq_iff)
  have rc1: "removeChild 1 [(1, ?a), (2, ?b)] = [(2, ?b)]"
    and rc2: "removeChild 2 [(2, ?b)] = []"
    by (simp_all add: removeChild_def)
  have nothrow: "\<not> throws noFailure e" for e
    by (simp add: noFailure_def)
  have s0: "onValue noFailure fixedClock (?L [(1, ?a), (2, ?b)] []) =
      (?L [(1, ?a), (2, ?b)] [?r [(1, ?a), (2, ?b)] AwaitHandle], [AddIceCandidate (PData ''host'')])"
    by (simp add: onValue_def ids mb other call Let_def)
  have s1: "resume noFailure fixedClock 0 (?L [(1, ?a), (2, ?b)] [?r [(1, ?a), (2, ?b)] AwaitHandle]) =
      (?L [(2, ?b)] [?r [(1, ?a), (2, ?b)] AwaitRemove, ?r [(2, ?b)] AwaitHandle],
       [RemoveSignal ''call-1'' ''bob'' 1, AddIceCandidate (PData ''srflx'')])"
    by (simp add: resume_def onValue_def ids mb other call rm [OF rc1] nothrow Let_def)
  have s2: "resume noFailure fixedClock 0
      (?L [(2, ?b)] [?r [(1, ?a), (2, ?b)] AwaitRemove, ?r [(2, ?b)] AwaitHandle]) =
      (?L [(2, ?b)] [?r [(2, ?b)] AwaitHandle, ?r [(2, ?b)] AwaitHandle],
       [AddIceCandidate (PData ''srflx'')])"
    by (simp add: resume_def call Let_def)
  have s3: "resume noFailure fixedClock 1
      (?L [(2, ?b)] [?r [(2, ?b)] AwaitHandle, ?r [(2, ?b)] AwaitHandle]) =
      (?E [?r [(2, ?b)] AwaitHandle, ?r [(2, ?b)] AwaitRemove],
       [RemoveSignal ''call-1'' ''bob'' 2])"
    by (simp add: resume_def onValue_def ids mb mb0 rm [OF rc2] nothrow fromOther_def Let_def)
  have s4: "resume noFailure fixedClock 0
      (?E [?r [(2, ?b)] AwaitHandle, ?r [(2, ?b)] AwaitRemove]) =
      (?E [?r [(2, ?b)] AwaitRemove, ?r [(2, ?b)] AwaitRemove],
       [RemoveSignal ''call-1'' ''bob'' 2])"
    by (simp add: resume_def ids mb0 rm0 nothrow Let_def)
  have s5: "resume noFailure fixedClock 0
      (?E [?r [(2, ?b)] AwaitRemove, ?r [(2, ?b)] AwaitRemove]) =
      (?E [?r [] AwaitRemove, ?r [(2, ?b)] AwaitRemove], [])"
    by (simp add: resume_def Let_def)
  have s6: "resume noFailure fixedClock 1
      (?E [?r [] AwaitRemove, ?r [(2, ?b)] AwaitRemove]) =
      (?E [?r [] AwaitRemove, ?r [] AwaitRemove], [])"
    by (simp add: resume_def Let_def)
  have start: "\<lparr>owner = exampleSession\<lparr>signalUnsubscribe := True\<rparr>, store = twoCandidatesDb, runs = []\<rparr> =
      ?L [(1, ?a), (2, ?b)] []"
    by (simp add: ids twoCandidatesDb_def)
  have all: "listenForSignals noFailure fixedClock exampleSession twoCandidatesDb
      [Resumes 0, Resumes 0, Resumes 1, Resumes 0, Resumes 0, Resumes 1] =
      (?E [?r [] AwaitRemove, ?r [] AwaitRemove],
       [AddIceCandidate (PData ''host''), RemoveSignal ''call-1'' ''bob'' 1,
        AddIceCandidate (PData ''srflx''), AddIceCandidate (PData ''srflx''),
        RemoveSignal ''call-1'' ''bob'' 2, RemoveSignal ''call-1'' ''bob'' 2])"
    unfolding listenForSignals_def start
    by (simp add: Let_def s0 s1 s2 s3 [unfolded One_nat_def] s4 s5 s6 [unfolded One_nat_def])
  have box: "signals twoCandidatesDb (callId exampleSession, userId exampleSession) =
      [(1, ?a), (2, ?b)]"
    by (simp add: twoCandidatesDb_def ids)
  show ?thesis
    unfolding all using box by simp
qed

text \<open>
  C3 (symmetric teardown): the code does not do what the claim says. The callee's service is
  in an active call, with its recorder running, when the peer ends the call. Whether the
  \<open>end-call\<close> signal is delivered first or the call state \<open>ended\<close> is seen first, the
  service only sets its latch (and, in the second case, notifies \<open>onCallEnded\<close>); the
  \<open>endCall()\<close> that the page's handler then invokes finds the latch set and returns at once.
  At the end the recorder is still recording, the local tracks are not stopped and the
  connection is not closed. No \<open>end-call\<close> signal is sent back.
\<close>

theorem remote_end_releases_nothing:
  "run noFailure exampleSession
     [EvSignal peerEndCall 8 8, EvSignalRemoved 7, EvCallState endedState, EvEndCall 9 9 9] =
     (exampleSession\<lparr>isCallEnded := True\<rparr>,
      [RemoveSignal ''call-1'' ''bob'' 7, Notify (OnCallStateChange endedState)]) \<and>
   run noFailure exampleSession [EvCallState endedState, EvEndCall 9 9 9] =
     (exampleSession\<lparr>isCallEnded := True\<rparr>,
      [Notify (OnCallStateChange endedState), Notify OnCallEnded]) \<and>
   mediaRecorder (exampleSession\<lparr>isCallEnded := True\<rparr>) = Some Recording \<and>
   localStream (exampleSession\<lparr>isCallEnded := True\<rparr>) =
     Some [Track Audio ''mic'', Track Video ''camera''] \<and>
   peerConnection (exampleSession\<lparr>isCallEnded := True\<rparr>) \<noteq> None"
proof -
  have sig: "step noFailure exampleSession (EvSignal peerEndCall 8 8) =
      (exampleSession\<lparr>isCallEnded := True\<rparr>, [])"
    by (simp add: step_def peerEndCall_def handleSignal_def exampleSession_def)
  have rm: "step noFailure (exampleSession\<lparr>isCallEnded := True\<rparr>) (EvSignalRemoved 7) =
      (exampleSession\<lparr>isCallEnded := True\<rparr>, [RemoveSignal ''call-1'' ''bob'' 7])"
    by (simp add: step_def exampleSession_def)
  have st1: "step noFailure (exampleSession\<lparr>isCallEnded := True\<rparr>) (EvCallState endedState) =
      (exampleSession\<lparr>isCallEnded := True\<rparr>, [Notify (OnCallStateChange endedState)])"
    by (simp add: step_def onCallState_def endedState_def Let_def)
  have st2: "step noFailure exampleSession (EvCallState endedState) =
      (exampleSession\<lparr>isCallEnded := True\<rparr>,
       [Notify (OnCallStateChange endedState), Notify OnCallEnded])"
    by (simp add: step_def onCallState_def endedState_def Let_def exampleSession_def)
  have e: "step noFailure (exampleSession\<lparr>isCallEnded := True\<rparr>) (EvEndCall 9 9 9) =
      (exampleSession\<lparr>isCallEnded := True\<rparr>, [])"
    by (simp add: step_def endCall_def)
  have held: "mediaRecorder (exampleSession\<lparr>isCallEnded := True\<rparr>) = Some Recording"
    "localStream (exampleSession\<lparr>isCallEnded := True\<rparr>) =
      Some [Track Audio ''mic'', Track Video ''camera'']"
    "peerConnection (exampleSession\<lparr>isCallEnded := True\<rparr>) \<noteq> None"
    by (simp_all add: exampleSession_def)
  have r1: "run noFailure exampleSession
      [EvSignal peerEndCall 8 8, EvSignalRemoved 7, EvCallState endedState, EvEndCall 9 9 9] =
      (exampleSession\<lparr>isCallEnded := True\<rparr>,
       [RemoveSignal ''call-1'' ''bob'' 7, Notify (OnCallStateChange endedState)])"
    by (simp add: Let_def sig rm st1 e)
  have r2: "run noFailure exampleSession [EvCallState endedState, EvEndCall 9 9 9] =
      (exampleSession\<lparr>isCallEnded := True\<rparr>,
       [Notify (OnCallStateChange endedState), Notify OnCallEnded])"
    by (simp add: Let_def st2 e)
  show ?thesis
    using r1 r2 held by blast
qed

lemma chunksOf_Cons: "chunksOf (ev # evs) = chunksOf [ev] @ chunksOf evs"
  by (simp add: chunksOf_def)

lemma step_after_teardown:
  assumes "peerConnection s = None" and "localStream s = None" and "remoteStream s = None"
    and "isCallEnded s" and "\<not> recorderActive s" and "\<not> isInitialize ev"
  shows "peerConnection (fst (step env s ev)) = None \<and>
    localStream (fst (step env s ev)) = None \<and>
    remoteStream (fst (step env s ev)) = None \<and>
    isCallEnded (fst (step env s ev)) \<and>
    \<not> recorderActive (fst (step env s ev)) \<and>
    recordedChunks (fst (step env s ev)) = recordedChunks s @ chunksOf [ev]"
  using assms
  by (cases ev)
     (simp_all add: step_def isInitialize_def chunksOf_def acceptCall_def handleSignal_def
      onicecandidate_def oniceconnectionstatechange_def onCallState_def startRecording_def
      ontrack_def ondataavailable_def getRecording_def endCall_def rejectCall_def
      recorderActive_def Let_def split: option.splits)

lemma run_after_teardown:
  assumes "peerConnection s = None" and "localStream s = None" and "remoteStream s = None"
    and "isCallEnded s" and "\<not> recorderActive s" and "\<forall>ev \<in> set evs. \<not> isInitialize ev"
  shows "\<not> recorderActive (fst (run env s evs)) \<and>
    recordedChunks (fst (run env s evs)) = recordedChunks s @ chunksOf evs"
  using assms
proof (induction evs arbitrary: s)
  case Nil
  then show ?case by (simp add: chunksOf_def)
next
  case (Cons ev evs)
  from Cons.prems have ev: "\<not> isInitialize ev" and evs: "\<forall>e \<in> set evs. \<not> isInitialize e"
    by simp_all
  note st = step_after_teardown [OF Cons.prems(1-5) ev, of env]
  from st have a: "peerConnection (fst (step env s ev)) = None"
    and b: "localStream (fst (step env s ev)) = None"
    and c: "remoteStream (fst (step env s ev)) = None"
    and d: "isCallEnded (fst (step env s ev))"
    and e: "\<not> recorderActive (fst (step env s ev))"
    and f: "recordedChunks (fst (step env s ev)) = recordedChunks s @ chunksOf [ev]"
    by blast+
  from Cons.IH [OF a b c d e evs] f show ?case
    by (simp add: Let_def chunksOf_Cons [of ev evs])
qed

lemma endCall_tears_down:
  "\<not> isCallEnded s \<Longrightarrow>
   peerConnection (fst (endCall t k t2 s)) = None \<and>
   localStream (fst (endCall t k t2 s)) = None \<and>
   remoteStream (fst (endCall t k t2 s)) = None \<and>
   isCallEnded (fst (endCall t k t2 s)) \<and>
   \<not> recorderActive (fst (endCall t k t2 s)) \<and>
   recordedChunks (fst (endCall t k t2 s)) = []"
  by (simp add: endCall_def cleanup_def Let_def recorderActive_def)

text \<open>
  C10 (the recording is unreachable after end), as amended. Once an \<open>endCall()\<close> that found
  the latch unset has returned, the chunks recorded before it cannot be retrieved any more.
  Whatever happens to the service afterwards, short of initialising it for a new call, a
  \<open>getRecording()\<close> returns what the recorder has delivered since \<open>endCall\<close> cleared the
  buffer and nothing else: null when it has delivered no non-empty chunk, as when the page
  calls \<open>getRecording()\<close> right after \<open>endCall()\<close>, and otherwise a blob of those late
  chunks only.
\<close>

theorem recording_lost_after_endCall:
  assumes "\<not> isCallEnded s" and "\<forall>ev \<in> set evs. \<not> isInitialize ev"
  shows "snd (getRecording final (fst (run env (fst (endCall t k t2 s)) evs))) =
    (if chunksOf evs = [] then None else Some (Blob (chunksOf evs)))"
proof -
  let ?s = "fst (endCall t k t2 s)"
  from endCall_tears_down [OF assms(1), of t k t2]
  have a: "peerConnection ?s = None" and b: "localStream ?s = None"
    and c: "remoteStream ?s = None" and d: "isCallEnded ?s" and e: "\<not> recorderActive ?s"
    and f: "recordedChunks ?s = []"
    by blast+
  from run_after_teardown [OF a b c d e assms(2), of env] f
  have "\<not> recorderActive (fst (run env ?s evs))"
    and "recordedChunks (fst (run env ?s evs)) = chunksOf evs"
    by simp_all
  then show ?thesis
    by (simp add: getRecording_def)
qed

theorem recording_lost_after_endCall_witness:
  "recordedChunks exampleSession = [512, 498] \<and>
   snd (getRecording 100 (fst (run noFailure (fst (endCall 9 9 9 exampleSession)) []))) = None \<and>
   snd (getRecording 100 (fst (run noFailure (fst (endCall 9 9 9 exampleSession))
      [EvCallState activeState, EvTrack [Track Audio ''peer-mic''], EvDataAvailable 0,
       EvEndCall 10 10 10]))) = None \<and>
   snd (getRecording 100 (fst (run noFailure (fst (endCall 9 9 9 exampleSession))
      [EvDataAvailable 100, EvGetRecording 0, EvDataAvailable 7]))) = Some (Blob [100, 7])"
proof -
  have live: "\<not> isCallEnded exampleSession"
    by (simp add: exampleSession_def)
  have chunks: "recordedChunks exampleSession = [512, 498]"
    by (simp add: exampleSession_def)
  have e0: "\<forall>ev \<in> set ([] :: event list). \<not> isInitialize ev"
    by simp
  have e1: "\<forall>ev \<in> set [EvCallState activeState, EvTrack [Track Audio ''peer-mic''],
      EvDataAvailable 0, EvEndCall 10 10 10]. \<not> isInitialize ev"
    by (simp add: isInitialize_def)
  have e2: "\<forall>ev \<in> set [EvDataAvailable 100, EvGetRecording 0, EvDataAvailable 7].
      \<not> isInitialize ev"
    by (simp add: isInitialize_def)
  have c0: "chunksOf [] = []"
    and c1: "chunksOf [EvCallState activeState, EvTrack [Track Audio ''peer-mic''],
      EvDataAvailable 0, EvEndCall 10 10 10] = []"
    and c2: "chunksOf [EvDataAvailable 100, EvGetRecording 0, EvDataAvailable 7] = [100, 7]"
    by (simp_all add: chunksOf_def)
  show ?thesis
    using chunks
      recording_lost_after_endCall [OF live e0, of 100 noFailure 9 9 9]
      recording_lost_after_endCall [OF live e1, of 100 noFailure 9 9 9]
      recording_lost_after_endCall [OF live e2, of 100 noFailure 9 9 9]
    by (simp only: c0 c1 c2) simp
qed

text \<open>C10 as stated fails: \<open>endCall()\<close> stops the recorder, and the recorder delivers its
  last chunk after \<open>endCall()\<close> has cleared the buffer; a \<open>getRecording()\<close> called after
  that returns a blob.\<close>

theorem recording_after_endCall_counterexample:
  "isCallEnded exampleSession = False \<and>
   snd (getRecording 0
      (fst (run noFailure exampleSession [EvEndCall 9 9 9, EvDataAvailable 100]))) =
     Some (Blob [100])"
  by (simp add: Let_def step_def endCall_def cleanup_def recorderActive_def
      ondataavailable_def getRecording_def exampleSession_def)

lemma startRecording_ok:
  assumes "localStream s = Some l" and "remoteStream s = Some r"
    and "\<not> throws env NewAudioContext"
    and "\<not> throws env (CreateMediaStreamSource l)"
    and "\<not> throws env (CreateMediaStreamSource r)"
    and "\<not> throws env (NewMediaRecorder (mixedTracks l r))"
    and "\<not> throws env (RecorderStart 1000)"
  shows "startRecording env s =
    (s\<lparr>audioContext := True, mixedStream := Some (mixedTracks l r),
       mediaRecorder := Some Recording, recordedChunks := []\<rparr>,
     [NewAudioContext, CreateMediaStreamSource l, CreateMediaStreamSource r,
      NewMediaRecorder (mixedTracks l r), RecorderStart 1000])"
  using assms by (simp add: startRecording_def Let_def)

lemma mixedTracks_audio: "filter isAudioTrack (mixedTracks l r) = [MixedAudio l r]"
proof (cases "getVideoTracks l")
  case Nil
  then show ?thesis by (simp add: mixedTracks_def isAudioTrack_def)
next
  case (Cons v vs)
  then have "v \<in> set (getVideoTracks l)" by simp
  then have video: "case v of Track kd lbl \<Rightarrow> kd = Video"
    by (simp add: getVideoTracks_def)
  obtain kd lbl where v: "v = Track kd lbl" by (cases v)
  from video have "\<not> isAudioTrack (Plain v)"
    by (simp add: v isAudioTrack_def)
  with Cons show ?thesis by (simp add: mixedTracks_def isAudioTrack_def)
qed

text \<open>
  What holds of the recording. A service that holds a local and a remote stream, has no
  recorder yet and sees the call state \<open>active\<close> for the first time starts the recorder, when
  the media engine raises no error, on a stream with exactly one audio track, the mix of the
  two streams; a repeated \<open>active\<close> state or a further remote track starts no second
  recorder; and once the recorder has delivered a non-empty chunk (it is started with a
  timeslice of 1000 ms), \<open>getRecording()\<close> stops it and returns a blob of positive size.
\<close>

lemma recording_starts_on_active:
  assumes "localStream s = Some l" and "remoteStream s = Some r"
    and "mediaRecorder s = None" and "\<not> isCallActive s" and "status st = Active"
    and "\<not> throws env NewAudioContext"
    and "\<not> throws env (CreateMediaStreamSource l)"
    and "\<not> throws env (CreateMediaStreamSource r)"
    and "\<not> throws env (NewMediaRecorder (mixedTracks l r))"
    and "\<not> throws env (RecorderStart 1000)"
    and "0 < sz"
  shows "mediaRecorder (fst (onCallState env s st)) = Some Recording \<and>
    mixedStream (fst (onCallState env s st)) = Some (mixedTracks l r) \<and>
    filter isAudioTrack (mixedTracks l r) = [MixedAudio l r] \<and>
    filter isRecorderStart (snd (run env s [EvCallState st, EvCallState st, EvTrack ts])) =
      [RecorderStart 1000] \<and>
    (\<exists>b. snd (getRecording final (ondataavailable (fst (onCallState env s st)) sz)) = Some b \<and>
       0 < blobSize b) \<and>
    mediaRecorder (fst (fst (getRecording final (ondataavailable (fst (onCallState env s st)) sz)))) =
      Some Inactive"
proof -
  let ?a = "s\<lparr>isCallActive := True\<rparr>"
  let ?rec = "s\<lparr>isCallActive := True, audioContext := True, mixedStream := Some (mixedTracks l r),
       mediaRecorder := Some Recording, recordedChunks := []\<rparr>"
  have start: "startRecording env ?a = (?rec,
      [NewAudioContext, CreateMediaStreamSource l, CreateMediaStreamSource r,
       NewMediaRecorder (mixedTracks l r), RecorderStart 1000])"
    using startRecording_ok [of ?a l r env] assms(1,2,6-10) by simp
  have on: "onCallState env s st = (?rec,
      [Notify (OnCallStateChange st), NewAudioContext, CreateMediaStreamSource l,
       CreateMediaStreamSource r, NewMediaRecorder (mixedTracks l r), RecorderStart 1000])"
    using assms(4,5) by (simp add: onCallState_def Let_def start)
  have again: "onCallState env ?rec st = (?rec, [Notify (OnCallStateChange st)])"
    using assms(5) by (simp add: onCallState_def Let_def)
  have track: "filter isRecorderStart (snd (ontrack env ?rec ts)) = []"
    using assms(2) by (simp add: ontrack_def Let_def isRecorderStart_def)
  have once: "filter isRecorderStart (snd (run env s [EvCallState st, EvCallState st, EvTrack ts]))
      = [RecorderStart 1000]"
    using track by (simp add: Let_def step_def on again isRecorderStart_def)
  have blob: "\<exists>b. snd (getRecording final (ondataavailable ?rec sz)) = Some b \<and> 0 < blobSize b"
    using assms(11)
    by (simp add: getRecording_def recorderActive_def ondataavailable_def blobSize_def)
  have stopped: "mediaRecorder (fst (fst (getRecording final (ondataavailable ?rec sz)))) =
      Some Inactive"
    by (simp add: getRecording_def recorderActive_def ondataavailable_def)
  show ?thesis
    using once blob stopped mixedTracks_audio [of l r]
    by (simp add: on)
qed

text \<open>
  The other order: the call state has been seen \<open>active\<close> while the recorder could not be
  started, and a remote track arrives. \<open>ontrack\<close> adds it to the remote stream and starts
  the recorder, once, on the mix of the local stream and the remote stream as it is now.
\<close>

lemma recording_starts_on_track:
  assumes "localStream s = Some l" and "remoteStream s = Some r"
    and "mediaRecorder s = None" and "isCallActive s"
    and "\<not> throws env NewAudioContext"
    and "\<not> throws env (CreateMediaStreamSource l)"
    and "\<not> throws env (CreateMediaStreamSource (addTracks r ts))"
    and "\<not> throws env (NewMediaRecorder (mixedTracks l (addTracks r ts)))"
    and "\<not> throws env (RecorderStart 1000)"
  shows "mediaRecorder (fst (ontrack env s ts)) = Some Recording \<and>
    mixedStream (fst (ontrack env s ts)) = Some (mixedTracks l (addTracks r ts)) \<and>
    filter isRecorderStart (snd (run env s [EvTrack ts, EvTrack ts', EvCallState st])) =
      [RecorderStart 1000]"
proof -
  let ?r = "addTracks r ts"
  let ?a = "s\<lparr>remoteStream := Some ?r\<rparr>"
  let ?rec = "s\<lparr>remoteStream := Some ?r, audioContext := True,
       mixedStream := Some (mixedTracks l ?r), mediaRecorder := Some Recording,
       recordedChunks := []\<rparr>"
  have start: "startRecording env ?a = (?rec,
      [NewAudioContext, CreateMediaStreamSource l, CreateMediaStreamSource ?r,
       NewMediaRecorder (mixedTracks l ?r), RecorderStart 1000])"
    using startRecording_ok [of ?a l ?r env] assms(1,5-9) by simp
  have on: "ontrack env s ts = (?rec,
      [Notify (OnRemoteStream ?r), NewAudioContext, CreateMediaStreamSource l,
       CreateMediaStreamSource ?r, NewMediaRecorder (mixedTracks l ?r), RecorderStart 1000])"
    using assms(1-4) by (simp add: ontrack_def Let_def start)
  have again: "filter isRecorderStart (snd (ontrack env ?rec ts')) = []"
    by (simp add: ontrack_def Let_def isRecorderStart_def)
  have active: "isCallActive (fst (ontrack env ?rec ts'))"
    using assms(4) by (simp add: ontrack_def Let_def)
  have state: "filter isRecorderStart (snd (onCallState env (fst (ontrack env ?rec ts')) st)) = []"
    using active by (simp add: onCallState_def Let_def isRecorderStart_def)
  have once: "filter isRecorderStart (snd (run env s [EvTrack ts, EvTrack ts', EvCallState st])) =
      [RecorderStart 1000]"
    using again state by (simp add: Let_def step_def on isRecorderStart_def)
  show ?thesis
    using once by (simp add: on)
qed







text \<open>
  C8 (audit-coupled end update). A PATCH with status \<open>ended\<close> is answered 503 exactly when
  its body passes \<open>endCallSchema\<close> and the awaited \<open>logCall\<close> raises an error, which it
  does exactly when the sheet is not configured or the write to it fails; a body that does not
  pass the schema is answered 400 before any write is attempted. A PATCH with any other status
  is never answered 503 and does not wait for the sheet.
\<close>

theorem patch_ended_audit_coupled:
  "(fst (patchCall sh b) = 503 \<longleftrightarrow>
      b ''status'' = Some (JStr ''ended'') \<and> endCallSchema b \<and> logCall sh True = Raised) \<and>
   (logCall sh True = Raised \<longleftrightarrow> \<not> configured sh \<or> appendFails sh) \<and>
   (b ''status'' = Some (JStr ''ended'') \<and> endCallSchema b \<longrightarrow>
      snd (patchCall sh b) \<and> (fst (patchCall sh b) = 503 \<or> fst (patchCall sh b) = 200)) \<and>
   (b ''status'' \<noteq> Some (JStr ''ended'') \<longrightarrow>
      fst (patchCall sh b) \<noteq> 503 \<and> \<not> snd (patchCall sh b))"
  by (simp add: patchCall_def logCall_def)

theorem patch_ended_audit_coupled_witness:
  "endedBody ''status'' = Some (JStr ''ended'') \<and> endCallSchema endedBody \<and>
   activeBody ''status'' \<noteq> Some (JStr ''ended'') \<and>
   patchCall \<lparr>configured = True, appendFails = True\<rparr> endedBody = (503, True) \<and>
   patchCall \<lparr>configured = True, appendFails = False\<rparr> endedBody = (200, True) \<and>
   patchCall \<lparr>configured = False, appendFails = False\<rparr> activeBody = (200, False)"
proof -
  have e: "endedBody ''status'' = Some (JStr ''ended'')"
    by (simp add: endedBody_def)
  have v: "endCallSchema endedBody"
    by (simp add: endCallSchema_def endedBody_def isString_def isNumber_def
        isOptionalString_def)
  have a: "activeBody ''status'' \<noteq> Some (JStr ''ended'')"
    by (simp add: activeBody_def)
  have u: "updateCallSchema activeBody"
    by (simp add: updateCallSchema_def activeBody_def isString_def isNumber_def
        isOptionalString_def isOptionalNumber_def)
  have r: "logCall \<lparr>configured = True, appendFails = True\<rparr> True = Raised"
    "logCall \<lparr>configured = True, appendFails = False\<rparr> True \<noteq> Raised"
    by (simp_all add: logCall_def)
  have p1: "fst (patchCall \<lparr>configured = True, appendFails = True\<rparr> endedBody) = 503"
    using patch_ended_audit_coupled [of "\<lparr>configured = True, appendFails = True\<rparr>" endedBody]
      e v r(1) by blast
  have p1': "snd (patchCall \<lparr>configured = True, appendFails = True\<rparr> endedBody)"
    using patch_ended_audit_coupled [of "\<lparr>configured = True, appendFails = True\<rparr>" endedBody]
      e v by blast
  have p2: "patchCall \<lparr>configured = True, appendFails = False\<rparr> endedBody = (200, True)"
    using e v by (simp add: patchCall_def logCall_def)
  have p3: "patchCall \<lparr>configured = False, appendFails = False\<rparr> activeBody = (200, False)"
    using a u by (simp add: patchCall_def)
  show ?thesis
    using e v a p1 p1' p2 p3 by (simp add: prod_eq_iff)
qed

end
